theory Spec2Isabelle
  imports Complex_Main
begin

section \<open>The BPA transform: configuration\<close>

text \<open>
  The module \<^verbatim>\<open>bpa/balanced_pairwise_affinities.py\<close> defines the class \<^verbatim>\<open>BPA\<close>. Its
  constructor checks two of its arguments with one \<^verbatim>\<open>assert\<close> and stores all six,
  together with the constant \<^verbatim>\<open>diagonal_val = 1e3\<close>.

  Exceptions are values of the type \<open>error\<close>; a computation that may raise returns
  \<open>error + 'a\<close>, with \<open>Inl\<close> for the exception.
\<close>

datatype error =
    AssertionError
  | RuntimeError
  | IndexError
  | UnboundLocalError
  | InvalidRef

text \<open>
  \<^verbatim>\<open>str.lower()\<close> on the characters the model has: the 26 ASCII capitals go to their
  small letters, every other character stays. (A Python string whose \<^verbatim>\<open>lower()\<close> is
  \<^verbatim>\<open>'cosine'\<close> or \<^verbatim>\<open>'euclidean'\<close> has ASCII letters only: the one non-ASCII character
  that Python lowers to an ASCII letter is the Kelvin sign, which goes to \<^verbatim>\<open>k\<close>.)
\<close>

definition lower_char :: "char \<Rightarrow> char" where
  "lower_char c =
     (case map_of (zip ''ABCDEFGHIJKLMNOPQRSTUVWXYZ'' ''abcdefghijklmnopqrstuvwxyz'') c of
        Some d \<Rightarrow> d
      | None \<Rightarrow> c)"

definition lower :: "string \<Rightarrow> string" where
  "lower s = map lower_char s"

definition supported_distances :: "string list" where
  "supported_distances = [''cosine'', ''euclidean'']"

record bpa =
  sinkhorn_iterations :: int
  distance_metric :: string
  mask_diag :: bool
  sigmoid :: bool
  ot_reg :: real
  max_scale :: bool
  diagonal_val :: real

text \<open>
  \<^verbatim>\<open>BPA.__init__\<close>. The arguments are in the order of the source:
  \<^verbatim>\<open>distance_metric, ot_reg, sinkhorn_iterations, sigmoid, mask_diag, max_scale\<close>.
\<close>

definition BPA_init :: "string \<Rightarrow> real \<Rightarrow> int \<Rightarrow> bool \<Rightarrow> bool \<Rightarrow> bool \<Rightarrow> error + bpa" where
  "BPA_init metric reg iters sig md ms =
     (if lower metric \<in> set supported_distances \<and> iters > 0
      then Inr \<lparr> sinkhorn_iterations = iters,
                 distance_metric = lower metric,
                 mask_diag = md,
                 sigmoid = sig,
                 ot_reg = reg,
                 max_scale = ms,
                 diagonal_val = 1000 \<rparr>
      else Inl AssertionError)"


section \<open>Floating-point values\<close>

text \<open>
  A tensor entry is a real number or one of the three special values of IEEE arithmetic.
  The finite part is idealised: the sums, products, quotients and square roots of finite
  values are exact (no rounding), and there is one zero, read as \<open>+0\<close> when it divides.
  What the model keeps of floating point is what the real numbers do not have: a
  division by zero returns an infinity or \<open>NaN\<close> instead of raising, \<open>NaN\<close>
  propagates, and \<^verbatim>\<open>exp\<close> and \<^verbatim>\<open>sigmoid\<close> leave the range of the floats, to 0 below and
  to infinity above.
\<close>

datatype fl = Fin real | PInf | NInf | NaN

fun fl_neg :: "fl \<Rightarrow> fl" where
  "fl_neg (Fin a) = Fin (- a)"
| "fl_neg PInf = NInf"
| "fl_neg NInf = PInf"
| "fl_neg NaN = NaN"

fun fl_add :: "fl \<Rightarrow> fl \<Rightarrow> fl" where
  "fl_add (Fin a) (Fin b) = Fin (a + b)"
| "fl_add NaN _ = NaN"
| "fl_add _ NaN = NaN"
| "fl_add PInf NInf = NaN"
| "fl_add NInf PInf = NaN"
| "fl_add PInf _ = PInf"
| "fl_add _ PInf = PInf"
| "fl_add NInf _ = NInf"
| "fl_add _ NInf = NInf"

definition fl_sub :: "fl \<Rightarrow> fl \<Rightarrow> fl" where
  "fl_sub a b = fl_add a (fl_neg b)"

text \<open>The sign of a product or quotient with an infinite operand.\<close>

definition signed_inf :: "bool \<Rightarrow> fl" where
  "signed_inf positive = (if positive then PInf else NInf)"

fun fl_mul :: "fl \<Rightarrow> fl \<Rightarrow> fl" where
  "fl_mul (Fin a) (Fin b) = Fin (a * b)"
| "fl_mul NaN _ = NaN"
| "fl_mul _ NaN = NaN"
| "fl_mul (Fin a) PInf = (if a = 0 then NaN else signed_inf (0 < a))"
| "fl_mul (Fin a) NInf = (if a = 0 then NaN else signed_inf (a < 0))"
| "fl_mul PInf (Fin b) = (if b = 0 then NaN else signed_inf (0 < b))"
| "fl_mul NInf (Fin b) = (if b = 0 then NaN else signed_inf (b < 0))"
| "fl_mul PInf PInf = PInf"
| "fl_mul PInf NInf = NInf"
| "fl_mul NInf PInf = NInf"
| "fl_mul NInf NInf = PInf"

fun fl_div :: "fl \<Rightarrow> fl \<Rightarrow> fl" where
  "fl_div (Fin a) (Fin b) =
     (if b = 0 then (if a = 0 then NaN else signed_inf (0 < a)) else Fin (a / b))"
| "fl_div NaN _ = NaN"
| "fl_div _ NaN = NaN"
| "fl_div (Fin a) PInf = Fin 0"
| "fl_div (Fin a) NInf = Fin 0"
| "fl_div PInf (Fin b) = signed_inf (0 \<le> b)"
| "fl_div NInf (Fin b) = signed_inf (b < 0)"
| "fl_div PInf PInf = NaN"
| "fl_div PInf NInf = NaN"
| "fl_div NInf PInf = NaN"
| "fl_div NInf NInf = NaN"

fun fl_sqrt :: "fl \<Rightarrow> fl" where
  "fl_sqrt (Fin a) = (if a < 0 then NaN else Fin (sqrt a))"
| "fl_sqrt PInf = PInf"
| "fl_sqrt NInf = NaN"
| "fl_sqrt NaN = NaN"

text \<open>
  \<^verbatim>\<open>torch.exp\<close> and \<^verbatim>\<open>torch.sigmoid\<close>. In float32, the default type of a tensor,
  \<^verbatim>\<open>exp(a)\<close> is 0 for \<open>a\<close> below \<open>ln (2 ^ - 150)\<close> and infinite for \<open>a\<close> above
  \<open>ln (2 ^ 128)\<close>; the two bounds are written to six decimals. \<^verbatim>\<open>sigmoid(a)\<close> is 0
  below the same lower bound and never infinite. (For float64 the bounds are about
  \<open>- 745.13\<close> and \<open>709.78\<close>.) Between the bounds the value is the exact one.
\<close>

definition exp_underflow :: real where
  "exp_underflow = - 103972077 / 1000000"

definition exp_overflow :: real where
  "exp_overflow = 88722839 / 1000000"

fun fl_exp :: "fl \<Rightarrow> fl" where
  "fl_exp (Fin a) =
     (if a < exp_underflow then Fin 0 else if exp_overflow < a then PInf else Fin (exp a))"
| "fl_exp PInf = PInf"
| "fl_exp NInf = Fin 0"
| "fl_exp NaN = NaN"

fun fl_sigmoid :: "fl \<Rightarrow> fl" where
  "fl_sigmoid (Fin a) = (if a < exp_underflow then Fin 0 else Fin (1 / (1 + exp (- a))))"
| "fl_sigmoid PInf = Fin 1"
| "fl_sigmoid NInf = Fin 0"
| "fl_sigmoid NaN = NaN"

text \<open>The maximum of the reductions \<^verbatim>\<open>max\<close>, \<^verbatim>\<open>amax\<close> and of \<^verbatim>\<open>clamp_min\<close>: \<open>NaN\<close> wins.\<close>

fun fl_max :: "fl \<Rightarrow> fl \<Rightarrow> fl" where
  "fl_max (Fin a) (Fin b) = Fin (max a b)"
| "fl_max NaN _ = NaN"
| "fl_max _ NaN = NaN"
| "fl_max PInf _ = PInf"
| "fl_max _ PInf = PInf"
| "fl_max NInf b = b"
| "fl_max a NInf = a"

text \<open>The comparisons \<^verbatim>\<open><\<close>, \<^verbatim>\<open><=\<close> and \<^verbatim>\<open>==\<close> of floats: every comparison with \<open>NaN\<close> is false.\<close>

fun fl_le :: "fl \<Rightarrow> fl \<Rightarrow> bool" where
  "fl_le (Fin a) (Fin b) = (a \<le> b)"
| "fl_le NaN _ = False"
| "fl_le _ NaN = False"
| "fl_le NInf _ = True"
| "fl_le _ PInf = True"
| "fl_le PInf _ = False"
| "fl_le _ NInf = False"

definition fl_eq :: "fl \<Rightarrow> fl \<Rightarrow> bool" where
  "fl_eq a b = (a = b \<and> a \<noteq> NaN)"

definition fl_lt :: "fl \<Rightarrow> fl \<Rightarrow> bool" where
  "fl_lt a b = (fl_le a b \<and> \<not> fl_eq a b)"

fun is_fin :: "fl \<Rightarrow> bool" where
  "is_fin (Fin a) = True"
| "is_fin _ = False"

fun the_fin :: "fl \<Rightarrow> real" where
  "the_fin (Fin a) = a"
| "the_fin _ = 0"

text \<open>\<open>in_unit v\<close>: the entry is a number of the interval \<open>[0, 1]\<close>.\<close>

definition in_unit :: "fl \<Rightarrow> bool" where
  "in_unit v = (fl_le (Fin 0) v \<and> fl_le v (Fin 1))"

fun fl_sum :: "fl list \<Rightarrow> fl" where
  "fl_sum [] = Fin 0"
| "fl_sum (v # vs) = fl_add v (fl_sum vs)"

text \<open>
  A reduction to the maximum raises on an empty tensor; the exception it raises is a
  parameter (\<^verbatim>\<open>Tensor.max()\<close> raises RuntimeError, \<^verbatim>\<open>amax\<close> over an empty dimension
  IndexError).
\<close>

fun fl_max_list :: "error \<Rightarrow> fl list \<Rightarrow> error + fl" where
  "fl_max_list e [] = Inl e"
| "fl_max_list e (v # vs) = Inr (foldr fl_max vs v)"


section \<open>Tensors\<close>

text \<open>
  A tensor of rank 2 is a list of rows, a tensor of rank 3 a list of such matrices: the
  shapes \<^verbatim>\<open>[N, D]\<close>, \<^verbatim>\<open>[N, N]\<close> and \<^verbatim>\<open>[B, N, D]\<close>, \<^verbatim>\<open>[B, N, N]\<close> of the transform. A list
  of lists has no shape of its own when it is empty, so the model reads a dimension
  that the lists do not show as 0.
\<close>

type_synonym matrix = "fl list list"

datatype tensor = Unbatched matrix | Batched "matrix list"

definition mmap :: "(fl \<Rightarrow> fl) \<Rightarrow> matrix \<Rightarrow> matrix" where
  "mmap f m = map (map f) m"

fun tmap :: "(fl \<Rightarrow> fl) \<Rightarrow> tensor \<Rightarrow> tensor" where
  "tmap f (Unbatched m) = Unbatched (mmap f m)"
| "tmap f (Batched ms) = Batched (map (mmap f) ms)"

fun entries :: "tensor \<Rightarrow> fl list" where
  "entries (Unbatched m) = concat m"
| "entries (Batched ms) = concat (map concat ms)"

text \<open>
  \<^verbatim>\<open>torch.cdist(x, x, p=2)\<close>: the L2 distance of every pair of rows, batch by batch,
  from the differences of the coordinates, as torch computes it for up to 25 rows
  (above, torch takes the distance from a matrix product, which is the same number in
  exact arithmetic).
\<close>

definition dist2 :: "fl list \<Rightarrow> fl list \<Rightarrow> fl" where
  "dist2 a b = fl_sqrt (fl_sum (map2 (\<lambda>u v. fl_mul (fl_sub u v) (fl_sub u v)) a b))"

definition cdist_m :: "matrix \<Rightarrow> matrix" where
  "cdist_m X = map (\<lambda>a. map (\<lambda>b. dist2 a b) X) X"

fun cdist :: "tensor \<Rightarrow> tensor" where
  "cdist (Unbatched X) = Unbatched (cdist_m X)"
| "cdist (Batched Xs) = Batched (map cdist_m Xs)"

text \<open>
  \<^verbatim>\<open>F.normalize(x, dim=-1, p=2)\<close>: every row is divided by its L2 norm, the norm
  clamped from below by \<^verbatim>\<open>eps = 1e-12\<close>.
\<close>

definition eps :: real where
  "eps = 1 / 10 ^ 12"

definition normalize_row :: "fl list \<Rightarrow> fl list" where
  "normalize_row a =
     (let denom = fl_max (fl_sqrt (fl_sum (map (\<lambda>u. fl_mul u u) a))) (Fin eps)
      in map (\<lambda>u. fl_div u denom) a)"

definition F_normalize :: "tensor \<Rightarrow> tensor" where
  "F_normalize x =
     (case x of Unbatched X \<Rightarrow> Unbatched (map normalize_row X)
              | Batched Xs \<Rightarrow> Batched (map (map normalize_row) Xs))"

text \<open>\<^verbatim>\<open>x @ x.transpose(-2, -1)\<close>: the inner product of every pair of rows.\<close>

definition dot :: "fl list \<Rightarrow> fl list \<Rightarrow> fl" where
  "dot a b = fl_sum (map2 fl_mul a b)"

definition gram_m :: "matrix \<Rightarrow> matrix" where
  "gram_m X = map (\<lambda>a. map (\<lambda>b. dot a b) X) X"

fun gram :: "tensor \<Rightarrow> tensor" where
  "gram (Unbatched X) = Unbatched (gram_m X)"
| "gram (Batched Xs) = Batched (map gram_m Xs)"

text \<open>
  \<^verbatim>\<open>Tensor.fill_diagonal_(value)\<close> on a matrix: entry \<open>(i, i)\<close> of every row \<open>i\<close> that has
  one (\<open>r[i := v]\<close> leaves a row shorter than \<open>i + 1\<close> as it is).
\<close>

definition fill_diagonal :: "matrix \<Rightarrow> fl \<Rightarrow> matrix" where
  "fill_diagonal m v = map2 (\<lambda>i r. r[i := v]) [0..<length m] m"

text \<open>\<^verbatim>\<open>M.shape[1]\<close> and \<^verbatim>\<open>M.shape[2]\<close> of a tensor of rank 3.\<close>

definition shape1 :: "matrix list \<Rightarrow> nat" where
  "shape1 ms = (case ms of [] \<Rightarrow> 0 | m # _ \<Rightarrow> length m)"

definition shape2 :: "matrix list \<Rightarrow> nat" where
  "shape2 ms = (case ms of [] \<Rightarrow> 0 | m # _ \<Rightarrow> (case m of [] \<Rightarrow> 0 | r # _ \<Rightarrow> length r))"

text \<open>
  The division by the maximum of lines 83 and 84: one maximum over the whole matrix
  (\<^verbatim>\<open>x_bpa.max().item()\<close>) for rank 2, one maximum per batch element
  (\<^verbatim>\<open>x_bpa.amax(dim=(1, 2), keepdim=True)\<close>, broadcast by the division) for rank 3.
  \<^verbatim>\<open>amax\<close> raises IndexError where a dimension it reduces is empty: for a batch with
  an empty matrix and for the empty batch, whose shape the model reads as \<^verbatim>\<open>[0, 0, 0]\<close>.
\<close>

definition div_max_m :: "error \<Rightarrow> matrix \<Rightarrow> error + matrix" where
  "div_max_m e m =
     (case fl_max_list e (concat m) of
        Inl err \<Rightarrow> Inl err
      | Inr z_max \<Rightarrow> Inr (mmap (\<lambda>v. fl_div v z_max) m))"

fun sequence :: "(error + 'a) list \<Rightarrow> error + 'a list" where
  "sequence [] = Inr []"
| "sequence (r # rs) =
     (case r of Inl e \<Rightarrow> Inl e
      | Inr x \<Rightarrow> (case sequence rs of Inl e \<Rightarrow> Inl e | Inr xs \<Rightarrow> Inr (x # xs)))"

fun div_max :: "tensor \<Rightarrow> error + tensor" where
  "div_max (Unbatched m) =
     (case div_max_m RuntimeError m of Inl e \<Rightarrow> Inl e | Inr r \<Rightarrow> Inr (Unbatched r))"
| "div_max (Batched ms) =
     (if ms = [] then Inl IndexError
      else case sequence (map (div_max_m IndexError) ms) of
             Inl e \<Rightarrow> Inl e
           | Inr rs \<Rightarrow> Inr (Batched rs))"


section \<open>The store\<close>

text \<open>
  \<^verbatim>\<open>mask_diagonal\<close> writes into the tensor it is given, so tensors live in a store and
  the methods take and return addresses. A computation takes the store and returns its
  result, a value or an exception, with the store it leaves. An operation of torch that
  returns a new tensor allocates a cell; only the two in-place writes of
  \<^verbatim>\<open>mask_diagonal\<close> change a cell that exists. \<open>InvalidRef\<close> is the model's own error
  for an address that holds no tensor, which a Python reference never is.
\<close>

type_synonym addr = nat

type_synonym store = "tensor list"

type_synonym 'a comp = "store \<Rightarrow> (error + 'a) \<times> store"

definition ret :: "'a \<Rightarrow> 'a comp" where
  "ret x st = (Inr x, st)"

definition raise :: "error \<Rightarrow> 'a comp" where
  "raise e st = (Inl e, st)"

definition bnd :: "'a comp \<Rightarrow> ('a \<Rightarrow> 'b comp) \<Rightarrow> 'b comp" where
  "bnd m f st = (case m st of (Inl e, st') \<Rightarrow> (Inl e, st') | (Inr x, st') \<Rightarrow> f x st')"

definition lift :: "error + 'a \<Rightarrow> 'a comp" where
  "lift r st = (r, st)"

definition load :: "addr \<Rightarrow> tensor comp" where
  "load a st = (if a < length st then (Inr (st ! a), st) else (Inl InvalidRef, st))"

definition alloc :: "tensor \<Rightarrow> addr comp" where
  "alloc t st = (Inr (length st), st @ [t])"

definition overwrite :: "addr \<Rightarrow> tensor \<Rightarrow> addr comp" where
  "overwrite a t st = (if a < length st then (Inr a, st[a := t]) else (Inl InvalidRef, st))"


section \<open>The methods of the transform\<close>

text \<open>
  \<^verbatim>\<open>BPA.compute_cost_matrix\<close>. The constructor leaves no third metric; a transform
  whose field holds another string reaches the \<^verbatim>\<open>return\<close> with \<^verbatim>\<open>pairwise_dist\<close>
  unbound.
\<close>

definition compute_cost_matrix :: "bpa \<Rightarrow> addr \<Rightarrow> addr comp" where
  "compute_cost_matrix self x =
     (if distance_metric self = ''euclidean'' then
        bnd (load x) (\<lambda>xv.
        bnd (alloc (cdist xv)) (\<lambda>pairwise_dist.
        bnd (load pairwise_dist) (\<lambda>pd.
        bnd (lift (fl_max_list RuntimeError (entries pd))) (\<lambda>mx.
        alloc (tmap (\<lambda>v. fl_div v mx) pd)))))
      else if distance_metric self = ''cosine'' then
        bnd (load x) (\<lambda>xv.
        bnd (alloc (F_normalize xv)) (\<lambda>x_norm.
        bnd (load x_norm) (\<lambda>xn.
        alloc (tmap (\<lambda>v. fl_sub (Fin 1) v) (gram xn)))))
      else raise UnboundLocalError)"

text \<open>
  \<^verbatim>\<open>BPA.mask_diagonal\<close>, in place. For rank 3 the boolean mask
  \<^verbatim>\<open>torch.eye(M.shape[1]).repeat(M.shape[0], 1, 1)\<close> has the shape
  \<^verbatim>\<open>[M.shape[0], M.shape[1], M.shape[1]]\<close>, and the indexed assignment raises IndexError
  unless that is the shape of \<^verbatim>\<open>M\<close>; for rank 2 \<^verbatim>\<open>fill_diagonal_\<close> takes any matrix.
  The method returns the tensor it was given.
\<close>

definition mask_diagonal :: "bpa \<Rightarrow> addr \<Rightarrow> fl \<Rightarrow> addr comp" where
  "mask_diagonal self M v =
     (if mask_diag self then
        bnd (load M) (\<lambda>t.
          case t of
            Batched ms \<Rightarrow>
              (if shape2 ms = shape1 ms
               then overwrite M (Batched (map (\<lambda>m. fill_diagonal m v) ms))
               else raise IndexError)
          | Unbatched m \<Rightarrow> overwrite M (Unbatched (fill_diagonal m v)))
      else ret M)"

text \<open>
  The solver \<^verbatim>\<open>ot.log_sinkhorn\<close> is defined in \<^verbatim>\<open>bpa/ot.py\<close>, which is not among the
  sources, so the transform takes it as a parameter: a function of the cost matrix, the
  regularisation and the iteration count that returns a new tensor or raises (the
  contract \<^verbatim>\<open>solve(cost_matrix, reg, iterations) -> LogPlan\<close> of the spec). The
  statements below hold for every such function.
\<close>

type_synonym solver = "tensor \<Rightarrow> real \<Rightarrow> int \<Rightarrow> error + tensor"

text \<open>
  \<^verbatim>\<open>BPA.forward\<close>, in four steps: lines 71 and 72 (the masked cost matrix), lines 75 to
  79 (the solve and the recovery by \<^verbatim>\<open>sigmoid\<close> or \<^verbatim>\<open>exp\<close>), lines 82 to 84 (the
  division by the maximum) and line 87 (the diagonal set to 1).
\<close>

definition masked_cost :: "bpa \<Rightarrow> addr \<Rightarrow> addr comp" where
  "masked_cost self x =
     bnd (compute_cost_matrix self x) (\<lambda>C.
     mask_diagonal self C (Fin (diagonal_val self)))"

definition self_ot :: "bpa \<Rightarrow> solver \<Rightarrow> addr \<Rightarrow> addr comp" where
  "self_ot self log_sinkhorn C =
     bnd (load C) (\<lambda>cv.
     bnd (lift (log_sinkhorn cv (ot_reg self) (sinkhorn_iterations self))) (\<lambda>plan.
     bnd (alloc plan) (\<lambda>x_bpa.
     bnd (load x_bpa) (\<lambda>xv.
     alloc (tmap (if sigmoid self then fl_sigmoid else fl_exp) xv)))))"

definition scale_range :: "bpa \<Rightarrow> addr \<Rightarrow> addr comp" where
  "scale_range self x_bpa =
     (if max_scale self then
        bnd (load x_bpa) (\<lambda>xv.
        bnd (lift (div_max xv)) (\<lambda>scaled.
        alloc scaled))
      else ret x_bpa)"

definition forward :: "bpa \<Rightarrow> solver \<Rightarrow> addr \<Rightarrow> addr comp" where
  "forward self log_sinkhorn x =
     bnd (masked_cost self x) (\<lambda>C.
     bnd (self_ot self log_sinkhorn C) (\<lambda>x_bpa.
     bnd (scale_range self x_bpa) (\<lambda>x_bpa.
     mask_diagonal self x_bpa (Fin 1))))"

text \<open>Lines 71 to 84 of \<^verbatim>\<open>forward\<close>: the tensor \<^verbatim>\<open>x_bpa\<close> that line 87 masks.\<close>

definition before_fixup :: "bpa \<Rightarrow> solver \<Rightarrow> addr \<Rightarrow> addr comp" where
  "before_fixup self log_sinkhorn x =
     bnd (masked_cost self x) (\<lambda>C.
     bnd (self_ot self log_sinkhorn C) (\<lambda>x_bpa.
     scale_range self x_bpa))"

text \<open>
  The transform of the source's default arguments, \<^verbatim>\<open>BPA()\<close>, and a solver to run it
  with on concrete inputs: the log plan of step 3 of the spec's algorithm for the
  potentials \<open>u = v = 0\<close>, that is \<open>- cost / reg\<close>.
\<close>

definition default_bpa :: bpa where
  "default_bpa =
     \<lparr> sinkhorn_iterations = 10, distance_metric = ''cosine'', mask_diag = True,
       sigmoid = False, ot_reg = 1 / 10, max_scale = True, diagonal_val = 1000 \<rparr>"

definition zero_potential_plan :: solver where
  "zero_potential_plan C reg iters = Inr (tmap (\<lambda>c. fl_div (fl_neg c) (Fin reg)) C)"


section \<open>Predicates of the statements\<close>

text \<open>
  \<open>keeps n m\<close>: the computation \<open>m\<close> leaves the first \<open>n\<close> cells of the store as they
  are. \<open>fresh n m\<close>: the address it returns is not among them.
\<close>

definition keeps :: "nat \<Rightarrow> 'a comp \<Rightarrow> bool" where
  "keeps n m =
     (\<forall>st r st'. n \<le> length st \<and> m st = (r, st') \<longrightarrow> n \<le> length st' \<and> take n st' = take n st)"

definition fresh :: "nat \<Rightarrow> addr comp \<Rightarrow> bool" where
  "fresh n m = (\<forall>st a st'. n \<le> length st \<and> m st = (Inr a, st') \<longrightarrow> n \<le> a)"

text \<open>\<open>diag_is v m\<close>: every entry \<open>(i, i)\<close> that the matrix has is \<open>v\<close>.\<close>

definition diag_is :: "fl \<Rightarrow> matrix \<Rightarrow> bool" where
  "diag_is v m = (\<forall>i \<in> {0..<length m}. i < length (m ! i) \<longrightarrow> m ! i ! i = v)"

definition tensor_diag_is :: "fl \<Rightarrow> tensor \<Rightarrow> bool" where
  "tensor_diag_is v t =
     (case t of Unbatched m \<Rightarrow> diag_is v m | Batched ms \<Rightarrow> (\<forall>m \<in> set ms. diag_is v m))"

text \<open>\<open>symmetric_m m\<close>: the matrix is square and entry \<open>(i, j)\<close> is entry \<open>(j, i)\<close>.\<close>

definition symmetric_m :: "matrix \<Rightarrow> bool" where
  "symmetric_m m =
     (\<forall>i \<in> {0..<length m}. length (m ! i) = length m
        \<and> (\<forall>j \<in> {0..<length m}. m ! i ! j = m ! j ! i))"

definition tensor_symmetric :: "tensor \<Rightarrow> bool" where
  "tensor_symmetric t =
     (case t of Unbatched m \<Rightarrow> symmetric_m m | Batched ms \<Rightarrow> (\<forall>m \<in> set ms. symmetric_m m))"

text \<open>
  The statement of the range normalisation. \<open>all_fin t\<close>: every entry is a number;
  \<open>in_exp_range t\<close>: every entry is a number between the two bounds of \<^verbatim>\<open>exp\<close>;
  \<open>nonempty t\<close>: the matrix, or the batch and every matrix of it, has an entry.
  \<open>scaled_by_max e m r\<close>: \<open>r\<close> is \<open>m\<close> with every entry divided by the maximum of \<open>m\<close>;
  \<open>unit_range e r\<close>: every entry of \<open>r\<close> is in \<open>[0, 1]\<close> and the maximum of \<open>r\<close> is
  exactly 1. \<open>range_normalized t s\<close>: for rank 2 the two hold of the whole matrix, for
  rank 3 of every batch element by itself.
\<close>

fun pos_fin :: "fl \<Rightarrow> bool" where
  "pos_fin (Fin a) = (0 < a)"
| "pos_fin _ = False"

definition all_fin :: "tensor \<Rightarrow> bool" where
  "all_fin t = (\<forall>v \<in> set (entries t). is_fin v)"

fun exp_range :: "fl \<Rightarrow> bool" where
  "exp_range (Fin a) = (exp_underflow \<le> a \<and> a \<le> exp_overflow)"
| "exp_range _ = False"

definition in_exp_range :: "tensor \<Rightarrow> bool" where
  "in_exp_range t = (\<forall>v \<in> set (entries t). exp_range v)"

definition nonempty :: "tensor \<Rightarrow> bool" where
  "nonempty t =
     (case t of
        Unbatched m \<Rightarrow> concat m \<noteq> []
      | Batched ms \<Rightarrow> ms \<noteq> [] \<and> (\<forall>m \<in> set ms. concat m \<noteq> []))"

definition scaled_by_max :: "error \<Rightarrow> matrix \<Rightarrow> matrix \<Rightarrow> bool" where
  "scaled_by_max e m r =
     (case fl_max_list e (concat m) of
        Inl _ \<Rightarrow> False
      | Inr z_max \<Rightarrow> r = mmap (\<lambda>v. fl_div v z_max) m)"

definition unit_range :: "error \<Rightarrow> matrix \<Rightarrow> bool" where
  "unit_range e r = ((\<forall>v \<in> set (concat r). in_unit v) \<and> fl_max_list e (concat r) = Inr (Fin 1))"

definition range_normalized :: "tensor \<Rightarrow> tensor \<Rightarrow> bool" where
  "range_normalized t s =
     (case (t, s) of
        (Unbatched m, Unbatched r) \<Rightarrow>
          scaled_by_max RuntimeError m r \<and> unit_range RuntimeError r
      | (Batched ms, Batched rs) \<Rightarrow>
          length rs = length ms
          \<and> (\<forall>b \<in> {0..<length ms}.
                scaled_by_max IndexError (ms ! b) (rs ! b) \<and> unit_range IndexError (rs ! b))
      | _ \<Rightarrow> False)"

text \<open>\<open>nonneg_fin v\<close>: the entry is a number that is not negative.\<close>

fun nonneg_fin :: "fl \<Rightarrow> bool" where
  "nonneg_fin (Fin a) = (0 \<le> a)"
| "nonneg_fin _ = False"

text \<open>
  \<open>unit_row r\<close>: a row of numbers whose squares sum to at most 1.
  \<open>off_diag_below c m\<close>: every entry of the matrix off its diagonal is less than \<open>c\<close>.
\<close>

definition unit_row :: "fl list \<Rightarrow> bool" where
  "unit_row r =
     ((\<forall>v \<in> set r. is_fin v) \<and> sum_list (map (\<lambda>v. the_fin v * the_fin v) r) \<le> 1)"

definition off_diag_below :: "fl \<Rightarrow> matrix \<Rightarrow> bool" where
  "off_diag_below c m =
     (\<forall>i \<in> {0..<length m}. \<forall>j \<in> {0..<length (m ! i)}. i \<noteq> j \<longrightarrow> fl_lt (m ! i ! j) c)"

definition tensor_off_diag_below :: "fl \<Rightarrow> tensor \<Rightarrow> bool" where
  "tensor_off_diag_below c t =
     (case t of Unbatched m \<Rightarrow> off_diag_below c m
              | Batched ms \<Rightarrow> (\<forall>m \<in> set ms. off_diag_below c m))"

text \<open>
  The statement of the diagonal fix-up. \<open>diag_set_m v m m'\<close>: the matrix \<open>m'\<close> has the
  shape of \<open>m\<close>, the value \<open>v\<close> in every entry \<open>(i, i)\<close> and the entry of \<open>m\<close> everywhere
  else; \<open>diag_set v t t'\<close>: the same of two matrices, or of two batches element by
  element, the batch being of square shape. \<open>dims t\<close>: the length of every row of the
  tensor; \<open>square_dims x\<close>: the lengths of the rows of a tensor with \<open>N\<close> rows of length
  \<open>N\<close> for every matrix of \<open>N\<close> rows in \<open>x\<close>. \<open>shape_preserving self s\<close>: the log plan that
  the solver \<open>s\<close> returns has the shape of the cost matrix it was given.
\<close>

definition diag_set_m :: "fl \<Rightarrow> matrix \<Rightarrow> matrix \<Rightarrow> bool" where
  "diag_set_m v m m' =
     (length m' = length m
      \<and> (\<forall>i \<in> {0..<length m}. length (m' ! i) = length (m ! i)
            \<and> (\<forall>j \<in> {0..<length (m ! i)}. m' ! i ! j = (if j = i then v else m ! i ! j))))"

definition diag_set :: "fl \<Rightarrow> tensor \<Rightarrow> tensor \<Rightarrow> bool" where
  "diag_set v t t' =
     (case (t, t') of
        (Unbatched m, Unbatched m') \<Rightarrow> diag_set_m v m m'
      | (Batched ms, Batched ms') \<Rightarrow>
          shape2 ms = shape1 ms \<and> length ms' = length ms
          \<and> (\<forall>b \<in> {0..<length ms}. diag_set_m v (ms ! b) (ms' ! b))
      | _ \<Rightarrow> False)"

fun dims :: "tensor \<Rightarrow> nat list + nat list list" where
  "dims (Unbatched m) = Inl (map length m)"
| "dims (Batched ms) = Inr (map (map length) ms)"

fun square_dims :: "tensor \<Rightarrow> nat list + nat list list" where
  "square_dims (Unbatched X) = Inl (replicate (length X) (length X))"
| "square_dims (Batched Xs) = Inr (map (\<lambda>X. replicate (length X) (length X)) Xs)"

definition shape_preserving :: "bpa \<Rightarrow> solver \<Rightarrow> bool" where
  "shape_preserving self s =
     (\<forall>C plan. s C (ot_reg self) (sinkhorn_iterations self) = Inr plan \<longrightarrow> dims plan = dims C)"

text \<open>
  \<open>float_symmetric_m m\<close>: the matrix is square and its entries \<open>(i, j)\<close> and \<open>(j, i)\<close>
  compare equal as floats, by \<^verbatim>\<open>==\<close>.
\<close>

definition float_symmetric_m :: "matrix \<Rightarrow> bool" where
  "float_symmetric_m m =
     (\<forall>i \<in> {0..<length m}. length (m ! i) = length m
        \<and> (\<forall>j \<in> {0..<length m}. fl_eq (m ! i ! j) (m ! j ! i)))"

definition tensor_float_symmetric :: "tensor \<Rightarrow> bool" where
  "tensor_float_symmetric t =
     (case t of Unbatched m \<Rightarrow> float_symmetric_m m
              | Batched ms \<Rightarrow> (\<forall>m \<in> set ms. float_symmetric_m m))"


section \<open>Construction\<close>

lemma lower_cosine: "lower ''cosine'' = ''cosine''"
  by (simp add: lower_def lower_char_def)

lemma lower_euclidean: "lower ''euclidean'' = ''euclidean''"
  by (simp add: lower_def lower_char_def)

text \<open>
  C1 (as stated, refuted): the claim says that construction with \<open>ot_reg = 0\<close> fails.
  The constructor's only check is the \<^verbatim>\<open>assert\<close> on the metric and on the iteration
  count, so with the default values of the other arguments and \<open>ot_reg = 0\<close> it returns
  a transform whose \<open>ot_reg\<close> is 0.
\<close>

theorem C1_ot_reg_zero_accepted:
  "BPA_init ''cosine'' 0 10 False True True =
     Inr \<lparr> sinkhorn_iterations = 10, distance_metric = ''cosine'', mask_diag = True,
           sigmoid = False, ot_reg = 0, max_scale = True, diagonal_val = 1000 \<rparr>"
  by (simp add: BPA_init_def supported_distances_def lower_cosine)

text \<open>
  C1 (amended): construction fails, with the assertion's error, exactly when the
  lower-cased metric is not supported or the iteration count is not positive, whatever
  \<open>ot_reg\<close> is; in every other case it succeeds and stores \<open>ot_reg\<close> as given, also
  when \<open>ot_reg\<close> is zero or negative.
\<close>

theorem C1_init_checks_metric_and_iterations_only:
  "(BPA_init metric reg iters sig md ms = Inl AssertionError) =
     (lower metric \<notin> set supported_distances \<or> iters \<le> 0)
   \<and> (lower metric \<in> set supported_distances \<and> 0 < iters \<longrightarrow>
        (\<exists>cfg. BPA_init metric reg iters sig md ms = Inr cfg \<and> ot_reg cfg = reg))"
  by (auto simp: BPA_init_def)

theorem C1_init_checks_metric_and_iterations_only_witness:
  "lower ''euclidean'' \<in> set supported_distances \<and> (0::int) < 5
   \<and> (\<exists>cfg. BPA_init ''euclidean'' (- 1) 5 True False True = Inr cfg \<and> ot_reg cfg = - 1)
   \<and> BPA_init ''euclidean'' (- 1) 5 True False True \<noteq> Inl AssertionError"
  using C1_init_checks_metric_and_iterations_only
          [of "''euclidean''" "- 1" 5 True False True]
  by (simp add: supported_distances_def lower_euclidean)




section \<open>The store: what a computation leaves unchanged\<close>


lemmas comp_defs = ret_def raise_def bnd_def lift_def load_def alloc_def overwrite_def

lemmas run_defs = forward_def scale_range_def self_ot_def masked_cost_def mask_diagonal_def
  compute_cost_matrix_def comp_defs dist2_def cdist_m_def fl_sub_def mmap_def
  normalize_row_def F_normalize_def dot_def gram_m_def fill_diagonal_def shape1_def
  shape2_def div_max_m_def eps_def signed_inf_def default_bpa_def zero_potential_plan_def
  exp_underflow_def exp_overflow_def

lemma bnd_Inr:
  assumes "bnd m f st = (Inr r, st')"
  obtains x st1 where "m st = (Inr x, st1)" and "f x st1 = (Inr r, st')"
  using assms by (auto simp: bnd_def split: prod.splits sum.splits)

lemma keepsD:
  "keeps n m \<Longrightarrow> n \<le> length st \<Longrightarrow> m st = (r, st') \<Longrightarrow> n \<le> length st' \<and> take n st' = take n st"
  unfolding keeps_def by blast

lemma freshD: "fresh n m \<Longrightarrow> n \<le> length st \<Longrightarrow> m st = (Inr a, st') \<Longrightarrow> n \<le> a"
  unfolding fresh_def by blast

lemma keeps_ret: "keeps n (ret x)"
  by (simp add: keeps_def ret_def)

lemma keeps_raise: "keeps n (raise e)"
  by (simp add: keeps_def raise_def)

lemma keeps_lift: "keeps n (lift r)"
  by (simp add: keeps_def lift_def)

lemma keeps_load: "keeps n (load a)"
  by (auto simp: keeps_def load_def split: if_splits)

lemma keeps_alloc: "keeps n (alloc t)"
  by (auto simp: keeps_def alloc_def)

lemma keeps_overwrite: "n \<le> a \<Longrightarrow> keeps n (overwrite a t)"
  by (auto simp: keeps_def overwrite_def split: if_splits)

lemma keeps_bnd:
  assumes "keeps n m" and "\<And>x. keeps n (f x)"
  shows "keeps n (bnd m f)"
  unfolding keeps_def
proof (intro allI impI)
  fix st r st'
  assume h: "n \<le> length st \<and> bnd m f st = (r, st')"
  obtain r1 st1 where m: "m st = (r1, st1)"
    by (cases "m st")
  with assms(1) h have k1: "n \<le> length st1" "take n st1 = take n st"
    by (auto simp: keeps_def)
  show "n \<le> length st' \<and> take n st' = take n st"
  proof (cases r1)
    case (Inl e)
    with h m k1 show ?thesis
      by (simp add: bnd_def)
  next
    case (Inr x)
    with h m have "f x st1 = (r, st')"
      by (simp add: bnd_def)
    with assms(2) [of x] k1 show ?thesis
      by (auto simp: keeps_def)
  qed
qed

lemma keeps_bnd_fresh:
  assumes "keeps n m" and "fresh n m" and "\<And>a. n \<le> a \<Longrightarrow> keeps n (f a)"
  shows "keeps n (bnd m f)"
  unfolding keeps_def
proof (intro allI impI)
  fix st r st'
  assume h: "n \<le> length st \<and> bnd m f st = (r, st')"
  obtain r1 st1 where m: "m st = (r1, st1)"
    by (cases "m st")
  with assms(1) h have k1: "n \<le> length st1" "take n st1 = take n st"
    by (auto simp: keeps_def)
  show "n \<le> length st' \<and> take n st' = take n st"
  proof (cases r1)
    case (Inl e)
    with h m k1 show ?thesis
      by (simp add: bnd_def)
  next
    case (Inr a)
    with h m have run: "f a st1 = (r, st')"
      by (simp add: bnd_def)
    from assms(2) h m Inr have "n \<le> a"
      by (auto simp: fresh_def)
    from assms(3) [OF this] run k1 show ?thesis
      by (auto simp: keeps_def)
  qed
qed

lemma fresh_alloc: "fresh n (alloc t)"
  by (auto simp: fresh_def alloc_def)

lemma fresh_raise: "fresh n (raise e)"
  by (simp add: fresh_def raise_def)

lemma fresh_ret: "n \<le> a \<Longrightarrow> fresh n (ret a)"
  by (simp add: fresh_def ret_def)

lemma fresh_overwrite: "n \<le> a \<Longrightarrow> fresh n (overwrite a t)"
  by (auto simp: fresh_def overwrite_def split: if_splits)

lemma fresh_bnd:
  assumes "keeps n m" and "\<And>x. fresh n (f x)"
  shows "fresh n (bnd m f)"
  unfolding fresh_def
proof (intro allI impI)
  fix st a st'
  assume h: "n \<le> length st \<and> bnd m f st = (Inr a, st')"
  then obtain x st1 where m: "m st = (Inr x, st1)" and f: "f x st1 = (Inr a, st')"
    by (auto elim: bnd_Inr)
  from assms(1) h m have "n \<le> length st1"
    by (auto simp: keeps_def)
  with assms(2) [of x] f show "n \<le> a"
    by (auto simp: fresh_def)
qed

lemma keeps_compute_cost_matrix: "keeps n (compute_cost_matrix self x)"
  unfolding compute_cost_matrix_def
  by (intro keeps_bnd keeps_load keeps_alloc keeps_lift keeps_raise
        if_split [where P = "keeps n", THEN iffD2] conjI impI)

lemma fresh_compute_cost_matrix: "fresh n (compute_cost_matrix self x)"
  unfolding compute_cost_matrix_def
  by (intro fresh_bnd fresh_alloc fresh_raise keeps_bnd keeps_load keeps_alloc keeps_lift
        if_split [where P = "fresh n", THEN iffD2] conjI impI)

lemma keeps_mask_diagonal: "n \<le> M \<Longrightarrow> keeps n (mask_diagonal self M v)"
  unfolding mask_diagonal_def
  by (auto intro!: keeps_bnd keeps_load keeps_overwrite keeps_raise keeps_ret
        split: tensor.splits)

lemma fresh_mask_diagonal: "n \<le> M \<Longrightarrow> fresh n (mask_diagonal self M v)"
  unfolding mask_diagonal_def
  by (auto intro!: fresh_bnd keeps_load fresh_overwrite fresh_raise fresh_ret
        split: tensor.splits)

lemma keeps_masked_cost: "keeps n (masked_cost self x)"
  unfolding masked_cost_def
  by (intro keeps_bnd_fresh keeps_compute_cost_matrix fresh_compute_cost_matrix
        keeps_mask_diagonal)

lemma fresh_masked_cost: "fresh n (masked_cost self x)"
  unfolding fresh_def
proof (intro allI impI)
  fix st a st'
  assume h: "n \<le> length st \<and> masked_cost self x st = (Inr a, st')"
  then obtain C st1 where c: "compute_cost_matrix self x st = (Inr C, st1)"
    and m: "mask_diagonal self C (Fin (diagonal_val self)) st1 = (Inr a, st')"
    unfolding masked_cost_def by (auto elim: bnd_Inr)
  from c h have "n \<le> C"
    using fresh_compute_cost_matrix [of n self x] by (auto simp: fresh_def)
  moreover from c h have "n \<le> length st1"
    using keeps_compute_cost_matrix [of n self x] by (auto simp: keeps_def)
  ultimately show "n \<le> a"
    using fresh_mask_diagonal [of n C self "Fin (diagonal_val self)"] m
    by (auto simp: fresh_def)
qed

lemma keeps_self_ot: "keeps n (self_ot self log_sinkhorn C)"
  unfolding self_ot_def
  by (intro keeps_bnd keeps_load keeps_alloc keeps_lift)

lemma fresh_self_ot: "fresh n (self_ot self log_sinkhorn C)"
  unfolding self_ot_def
  by (intro fresh_bnd fresh_alloc keeps_bnd keeps_load keeps_alloc keeps_lift)

lemma keeps_scale_range: "keeps n (scale_range self a)"
  unfolding scale_range_def
  by (auto intro!: keeps_bnd keeps_load keeps_alloc keeps_lift keeps_ret)

lemma fresh_scale_range: "n \<le> a \<Longrightarrow> fresh n (scale_range self a)"
  unfolding scale_range_def
  by (auto intro!: fresh_bnd fresh_alloc fresh_ret keeps_bnd keeps_load keeps_alloc keeps_lift)

lemma keeps_forward: "keeps n (forward self log_sinkhorn x)"
  unfolding forward_def
  by (intro keeps_bnd keeps_bnd_fresh keeps_masked_cost keeps_self_ot fresh_self_ot
        keeps_scale_range fresh_scale_range keeps_mask_diagonal)

text \<open>
  C9: \<^verbatim>\<open>forward\<close> leaves its input as it found it. Whatever the call returns, a
  tensor or an exception, every cell that the store had before the call, the input \<open>x\<close>
  among them, holds after the call the tensor it held before: the two in-place writes of
  \<^verbatim>\<open>mask_diagonal\<close> go to cells that the call itself allocated.
\<close>

theorem C9_forward_leaves_input_unchanged:
  assumes "x < length st" and "forward self log_sinkhorn x st = (r, st')"
  shows "length st \<le> length st' \<and> take (length st) st' = st \<and> st' ! x = st ! x"
proof -
  from keepsD [OF keeps_forward _ assms(2), of "length st"]
  have k: "length st \<le> length st'" "take (length st) st' = st"
    by simp_all
  from assms(1) have "take (length st) st' ! x = st' ! x"
    by simp
  with k show ?thesis
    by simp
qed

theorem C9_forward_leaves_input_unchanged_witness:
  "(0::nat) < length [Unbatched [[Fin 1, Fin 0], [Fin 0, Fin 1]]]
   \<and> fst (forward default_bpa zero_potential_plan 0
             [Unbatched [[Fin 1, Fin 0], [Fin 0, Fin 1]]]) = Inr 5
   \<and> snd (forward default_bpa zero_potential_plan 0
             [Unbatched [[Fin 1, Fin 0], [Fin 0, Fin 1]]]) ! 0
       = Unbatched [[Fin 1, Fin 0], [Fin 0, Fin 1]]"
proof -
  have run: "fst (forward default_bpa zero_potential_plan 0
                    [Unbatched [[Fin 1, Fin 0], [Fin 0, Fin 1]]]) = Inr 5"
    by (simp add: run_defs)
  have h: "(0::nat) < length [Unbatched [[Fin 1, Fin 0], [Fin 0, Fin 1]]]"
    by simp
  from C9_forward_leaves_input_unchanged [OF h surjective_pairing] run h
  show ?thesis
    by simp
qed


section \<open>Diagonal masking\<close>

lemma length_fill_diagonal: "length (fill_diagonal m v) = length m"
  by (simp add: fill_diagonal_def)

lemma nth_fill_diagonal: "i < length m \<Longrightarrow> fill_diagonal m v ! i = (m ! i)[i := v]"
  by (simp add: fill_diagonal_def)

lemma diag_is_fill_diagonal: "diag_is v (fill_diagonal m v)"
  by (simp add: diag_is_def length_fill_diagonal nth_fill_diagonal)

lemma mask_diagonal_Inr:
  assumes "mask_diag self" and "mask_diagonal self M v st = (Inr r, st')"
  shows "r = M \<and> M < length st \<and> length st' = length st
         \<and> (case st ! M of
              Unbatched m \<Rightarrow> st' ! M = Unbatched (fill_diagonal m v)
            | Batched ms \<Rightarrow> shape2 ms = shape1 ms
                \<and> st' ! M = Batched (map (\<lambda>m. fill_diagonal m v) ms))"
  using assms
  by (auto simp: mask_diagonal_def comp_defs split: if_splits tensor.splits)

text \<open>
  C5: with \<open>mask_diag\<close> false, \<^verbatim>\<open>mask_diagonal\<close> is the identity: for every tensor and
  every value it returns the tensor it was given and changes no entry of it, nor any
  other tensor.
\<close>

theorem C5_mask_diagonal_identity_when_disabled:
  assumes "\<not> mask_diag self"
  shows "mask_diagonal self M v st = (Inr M, st)"
  using assms by (simp add: mask_diagonal_def ret_def)

theorem C5_mask_diagonal_identity_when_disabled_witness:
  "\<not> mask_diag (default_bpa\<lparr>mask_diag := False\<rparr>)
   \<and> mask_diagonal (default_bpa\<lparr>mask_diag := False\<rparr>) 0 (Fin 1000)
        [Unbatched [[Fin 0, Fin 1], [Fin 1, Fin 0]]]
       = (Inr 0, [Unbatched [[Fin 0, Fin 1], [Fin 1, Fin 0]]])"
  using C5_mask_diagonal_identity_when_disabled
          [of "default_bpa\<lparr>mask_diag := False\<rparr>" 0 "Fin 1000"
              "[Unbatched [[Fin 0, Fin 1], [Fin 1, Fin 0]]]"]
  by (simp add: default_bpa_def)

text \<open>
  C8 (as stated, refuted): the claim says that a tensor whose trailing shape is not
  square makes \<^verbatim>\<open>mask_diagonal\<close> fail. A matrix of shape \<^verbatim>\<open>[2, 3]\<close> is accepted:
  \<^verbatim>\<open>fill_diagonal_\<close> writes its entries \<open>(0, 0)\<close> and \<open>(1, 1)\<close> and the method returns.
\<close>

theorem C8_non_square_matrix_accepted:
  "mask_diagonal default_bpa 0 (Fin 9) [Unbatched [[Fin 1, Fin 2, Fin 3], [Fin 4, Fin 5, Fin 6]]]
     = (Inr 0, [Unbatched [[Fin 9, Fin 2, Fin 3], [Fin 4, Fin 9, Fin 6]]])"
  by (simp add: mask_diagonal_def default_bpa_def comp_defs fill_diagonal_def)

text \<open>
  C8 (amended): \<^verbatim>\<open>mask_diagonal\<close> validates nothing itself. It fails exactly when
  masking is enabled and its argument has rank 3 with \<^verbatim>\<open>M.shape[2]\<close> different from
  \<^verbatim>\<open>M.shape[1]\<close>: then the indexed assignment raises IndexError and the tensor is as
  before. In every other case, a matrix of rank 2 that is not square among them, it
  returns its argument.
\<close>

theorem C8_mask_diagonal_fails_only_on_non_square_batch:
  assumes "M < length st"
  shows "(if mask_diag self \<and> (\<exists>ms. st ! M = Batched ms \<and> shape2 ms \<noteq> shape1 ms)
          then mask_diagonal self M v st = (Inl IndexError, st)
          else fst (mask_diagonal self M v st) = Inr M)"
  using assms
  by (auto simp: mask_diagonal_def comp_defs split: tensor.splits)

theorem C8_mask_diagonal_fails_only_on_non_square_batch_witness:
  "(0::nat) < length [Batched [[[Fin 1, Fin 2, Fin 3], [Fin 4, Fin 5, Fin 6]]]]
   \<and> mask_diag default_bpa
   \<and> shape2 [[[Fin 1, Fin 2, Fin 3], [Fin 4, Fin 5, Fin 6]]]
       \<noteq> shape1 [[[Fin 1, Fin 2, Fin 3], [Fin 4, Fin 5, Fin 6]]]
   \<and> mask_diagonal default_bpa 0 (Fin 9) [Batched [[[Fin 1, Fin 2, Fin 3], [Fin 4, Fin 5, Fin 6]]]]
       = (Inl IndexError, [Batched [[[Fin 1, Fin 2, Fin 3], [Fin 4, Fin 5, Fin 6]]]])"
  using C8_mask_diagonal_fails_only_on_non_square_batch
          [of 0 "[Batched [[[Fin 1, Fin 2, Fin 3], [Fin 4, Fin 5, Fin 6]]]]" default_bpa "Fin 9"]
  by (simp add: default_bpa_def shape1_def shape2_def)


section \<open>The cost matrix\<close>

lemma compute_cost_matrix_euclidean:
  assumes "distance_metric self = ''euclidean''"
    and "compute_cost_matrix self x st = (Inr C, st')"
  shows "x < length st
         \<and> (\<exists>mx. fl_max_list RuntimeError (entries (cdist (st ! x))) = Inr mx
               \<and> st' = st @ [cdist (st ! x), tmap (\<lambda>v. fl_div v mx) (cdist (st ! x))])
         \<and> C = Suc (length st)"
  using assms
  by (auto simp: compute_cost_matrix_def comp_defs nth_append split: if_splits sum.splits)

lemma compute_cost_matrix_cosine:
  assumes "distance_metric self = ''cosine''"
    and "compute_cost_matrix self x st = (Inr C, st')"
  shows "x < length st
         \<and> st' = st @ [F_normalize (st ! x),
                        tmap (\<lambda>v. fl_sub (Fin 1) v) (gram (F_normalize (st ! x)))]
         \<and> C = Suc (length st)"
  using assms
  by (auto simp: compute_cost_matrix_def comp_defs nth_append split: if_splits sum.splits)

lemma compute_cost_matrix_metric:
  assumes "compute_cost_matrix self x st = (Inr C, st')"
  shows "distance_metric self = ''euclidean'' \<or> distance_metric self = ''cosine''"
  using assms
  by (auto simp: compute_cost_matrix_def raise_def split: if_splits)

lemma fl_mul_commute: "fl_mul a b = fl_mul b a"
  by (cases a; cases b) (simp_all add: mult.commute)

lemma fl_sq_diff_commute:
  "fl_mul (fl_sub u v) (fl_sub u v) = fl_mul (fl_sub v u) (fl_sub v u)"
proof (cases u; cases v)
  fix a b
  assume "u = Fin a" and "v = Fin b"
  moreover have "(a - b) * (a - b) = (b - a) * (b - a)"
    by (simp add: algebra_simps)
  ultimately show ?thesis
    by (simp add: fl_sub_def)
qed (simp_all add: fl_sub_def)

lemma map2_commute:
  assumes "\<And>u v. f u v = g v u"
  shows "map2 f a b = map2 g b a"
proof (induction a arbitrary: b)
  case Nil
  show ?case by simp
next
  case (Cons u a)
  then show ?case
    by (cases b) (simp_all add: assms)
qed

lemma dist2_commute: "dist2 a b = dist2 b a"
proof -
  have "map2 (\<lambda>u v. fl_mul (fl_sub u v) (fl_sub u v)) a b
        = map2 (\<lambda>u v. fl_mul (fl_sub u v) (fl_sub u v)) b a"
    by (rule map2_commute) (rule fl_sq_diff_commute)
  then show ?thesis
    unfolding dist2_def by (rule arg_cong)
qed

lemma dot_commute: "dot a b = dot b a"
proof -
  have "map2 fl_mul a b = map2 fl_mul b a"
    by (rule map2_commute) (rule fl_mul_commute)
  then show ?thesis
    unfolding dot_def by (rule arg_cong)
qed

lemma symmetric_cdist_m: "symmetric_m (cdist_m X)"
  by (simp add: symmetric_m_def cdist_m_def dist2_commute)

lemma symmetric_gram_m: "symmetric_m (gram_m X)"
  by (simp add: symmetric_m_def gram_m_def dot_commute)

lemma symmetric_mmap: "symmetric_m m \<Longrightarrow> symmetric_m (mmap f m)"
  by (simp add: symmetric_m_def mmap_def)

lemma tensor_symmetric_cdist: "tensor_symmetric (cdist t)"
  by (cases t) (auto simp: tensor_symmetric_def symmetric_cdist_m)

lemma tensor_symmetric_gram: "tensor_symmetric (gram t)"
  by (cases t) (auto simp: tensor_symmetric_def symmetric_gram_m)

lemma tensor_symmetric_tmap: "tensor_symmetric t \<Longrightarrow> tensor_symmetric (tmap f t)"
  by (cases t) (auto simp: tensor_symmetric_def symmetric_mmap)

text \<open>
  The value of entry \<open>(i, j)\<close> of the cost matrix is the value of entry \<open>(j, i)\<close>, for
  both metrics, in a matrix and in every matrix of a batch. (Where the euclidean cost is
  \<open>NaN\<close>, it is \<open>NaN\<close> in both places, and the two do not compare equal as floats.)
\<close>

lemma cost_matrix_symmetric_values:
  assumes "compute_cost_matrix self x st = (Inr C, st')"
  shows "C < length st' \<and> tensor_symmetric (st' ! C)"
proof -
  from compute_cost_matrix_metric [OF assms]
  consider "distance_metric self = ''euclidean''" | "distance_metric self = ''cosine''"
    by blast
  then show ?thesis
  proof cases
    case 1
    from compute_cost_matrix_euclidean [OF 1 assms] show ?thesis
      by (auto simp: nth_append tensor_symmetric_tmap tensor_symmetric_cdist)
  next
    case 2
    from compute_cost_matrix_cosine [OF 2 assms] show ?thesis
      by (auto simp: nth_append tensor_symmetric_tmap tensor_symmetric_gram)
  qed
qed

text \<open>
  C3 (the code at the failing input): two identical feature vectors, metric
  \<^verbatim>\<open>euclidean\<close>. Every pairwise distance is 0, so is their maximum, and
  \<^verbatim>\<open>pairwise_dist / pairwise_dist.max()\<close> is \<open>0 / 0\<close> in every entry: the cost matrix
  that the method returns holds \<open>NaN\<close> only, and no entry is in \<open>[0, 1]\<close>.
\<close>

theorem C3_euclidean_cost_of_identical_rows_is_nan:
  "compute_cost_matrix (default_bpa\<lparr>distance_metric := ''euclidean''\<rparr>) 0
      [Unbatched [[Fin 1, Fin 2], [Fin 1, Fin 2]]]
     = (Inr 2, [Unbatched [[Fin 1, Fin 2], [Fin 1, Fin 2]],
                Unbatched [[Fin 0, Fin 0], [Fin 0, Fin 0]],
                Unbatched [[NaN, NaN], [NaN, NaN]]])
   \<and> \<not> in_unit NaN"
  by (simp add: run_defs in_unit_def)

text \<open>
  C7 (the code at the failing input): the same two identical feature vectors. After the
  masking of line 72 the diagonal of the cost matrix is 1000 and both off-diagonal
  entries are \<open>NaN\<close>, which 1000 is not greater than.
\<close>

theorem C7_masked_euclidean_cost_of_identical_rows:
  "masked_cost (default_bpa\<lparr>distance_metric := ''euclidean''\<rparr>) 0
      [Unbatched [[Fin 1, Fin 2], [Fin 1, Fin 2]]]
     = (Inr 2, [Unbatched [[Fin 1, Fin 2], [Fin 1, Fin 2]],
                Unbatched [[Fin 0, Fin 0], [Fin 0, Fin 0]],
                Unbatched [[Fin 1000, NaN], [NaN, Fin 1000]]])
   \<and> \<not> fl_lt NaN (Fin 1000)"
  by (simp add: run_defs fl_lt_def)

text \<open>
  C6 (the code at the failing input): the same two identical feature vectors, metric
  \<^verbatim>\<open>euclidean\<close>. The cost matrix that the method returns holds \<open>NaN\<close> only, and
  \<^verbatim>\<open>cost[0, 1] == cost[1, 0]\<close> compares \<open>NaN\<close> with \<open>NaN\<close>, which is false: the cost matrix
  is not symmetric by the comparison of floats.
\<close>

theorem C6_euclidean_cost_of_identical_rows_not_float_symmetric:
  "fst (compute_cost_matrix (default_bpa\<lparr>distance_metric := ''euclidean''\<rparr>) 0
          [Unbatched [[Fin 1, Fin 2], [Fin 1, Fin 2]]]) = Inr 2
   \<and> snd (compute_cost_matrix (default_bpa\<lparr>distance_metric := ''euclidean''\<rparr>) 0
            [Unbatched [[Fin 1, Fin 2], [Fin 1, Fin 2]]]) ! 2
       = Unbatched [[NaN, NaN], [NaN, NaN]]
   \<and> \<not> fl_eq ([[NaN, NaN], [NaN, NaN]] ! 0 ! 1) ([[NaN, NaN], [NaN, NaN]] ! 1 ! 0)"
  by (simp add: run_defs fl_eq_def)

lemma nan_matrix_not_float_symmetric:
  "\<not> tensor_float_symmetric (Unbatched [[NaN, NaN], [NaN, NaN]])"
proof -
  have "\<not> float_symmetric_m [[NaN, NaN], [NaN, NaN]]"
  proof
    assume a: "float_symmetric_m [[NaN, NaN], [NaN, NaN]]"
    have "(0::nat) \<in> {0..<length [[NaN, NaN], [NaN, NaN]]}"
      and "(1::nat) \<in> {0..<length [[NaN, NaN], [NaN, NaN]]}"
      by simp_all
    with a have "fl_eq ([[NaN, NaN], [NaN, NaN]] ! 0 ! 1) ([[NaN, NaN], [NaN, NaN]] ! 1 ! 0)"
      unfolding float_symmetric_m_def by blast
    then show False
      by (simp add: fl_eq_def)
  qed
  then show ?thesis
    by (simp add: tensor_float_symmetric_def)
qed


section \<open>The range normalisation\<close>

lemma foldr_max_Max: "foldr max rs (r::real) = Max (set (r # rs))"
proof (induction rs)
  case Nil
  show ?case by simp
next
  case (Cons a rs)
  have "Max (insert a (set (r # rs))) = max a (Max (set (r # rs)))"
    by (rule Max_insert) simp_all
  with Cons show ?case
    by (simp add: insert_commute)
qed

lemma foldr_fl_max_fin:
  assumes "is_fin v" and "\<forall>w \<in> set vs. is_fin w"
  shows "foldr fl_max vs v = Fin (foldr max (map the_fin vs) (the_fin v))"
  using assms
proof (induction vs)
  case Nil
  then show ?case by (cases v) simp_all
next
  case (Cons w vs)
  then show ?case by (cases w) simp_all
qed

lemma fl_max_list_fin:
  assumes "xs \<noteq> []" and "\<forall>v \<in> set xs. is_fin v"
  shows "fl_max_list e xs = Inr (Fin (Max (the_fin ` set xs)))"
proof (cases xs)
  case Nil
  with assms(1) show ?thesis by simp
next
  case (Cons v vs)
  with assms(2) have "foldr fl_max vs v = Fin (foldr max (map the_fin vs) (the_fin v))"
    by (intro foldr_fl_max_fin) simp_all
  with Cons show ?thesis
    by (simp add: foldr_max_Max)
qed

lemma pos_fin_is_fin: "pos_fin v \<Longrightarrow> is_fin v"
  by (cases v) simp_all

lemma pos_fin_the_fin: "pos_fin v \<Longrightarrow> 0 < the_fin v"
  by (cases v) simp_all

lemma Max_pos:
  assumes "xs \<noteq> []" and "\<forall>v \<in> set xs. pos_fin v"
  shows "0 < Max (the_fin ` set xs)"
proof -
  have "Max (the_fin ` set xs) \<in> the_fin ` set xs"
    using assms(1) by (intro Max_in) simp_all
  with assms(2) show ?thesis
    by (auto simp: pos_fin_the_fin)
qed

lemma fl_div_pos:
  assumes "pos_fin v" and "0 < M"
  shows "fl_div v (Fin M) = Fin (the_fin v / M)"
  using assms by (cases v) simp_all

lemma scaled_list_unit:
  assumes ne: "xs \<noteq> []" and pos: "\<forall>v \<in> set xs. pos_fin v"
    and M: "M = Max (the_fin ` set xs)"
  shows "(\<forall>v \<in> set (map (\<lambda>v. fl_div v (Fin M)) xs). in_unit v)
         \<and> fl_max_list e (map (\<lambda>v. fl_div v (Fin M)) xs) = Inr (Fin 1)"
proof -
  have Mpos: "0 < M"
    unfolding M by (rule Max_pos [OF ne pos])
  have le: "the_fin v \<le> M" if "v \<in> set xs" for v
    unfolding M using that by (intro Max_ge) simp_all
  have Min: "M \<in> the_fin ` set xs"
    unfolding M using ne by (intro Max_in) simp_all
  let ?ys = "map (\<lambda>v. fl_div v (Fin M)) xs"
  have eq: "fl_div v (Fin M) = Fin (the_fin v / M)" if "v \<in> set xs" for v
    using that pos Mpos by (intro fl_div_pos) simp_all
  have unit: "\<forall>v \<in> set ?ys. in_unit v"
  proof
    fix w assume "w \<in> set ?ys"
    then obtain v where v: "v \<in> set xs" and w: "w = fl_div v (Fin M)"
      by auto
    from v pos have "0 < the_fin v"
      by (simp add: pos_fin_the_fin)
    with le [OF v] Mpos show "in_unit w"
      by (simp add: w eq [OF v] in_unit_def)
  qed
  have fin: "\<forall>w \<in> set ?ys. is_fin w"
    by (auto simp: eq)
  have img: "the_fin ` set ?ys = (\<lambda>a. a / M) ` (the_fin ` set xs)"
    by (auto simp: eq image_iff intro!: bexI)
  have "Max ((\<lambda>a. a / M) ` (the_fin ` set xs)) = 1"
  proof (rule Max_eqI)
    show "finite ((\<lambda>a. a / M) ` the_fin ` set xs)" by simp
  next
    fix y assume "y \<in> (\<lambda>a. a / M) ` the_fin ` set xs"
    then obtain v where "v \<in> set xs" and "y = the_fin v / M" by auto
    with le Mpos show "y \<le> 1" by simp
  next
    from Min Mpos have "M / M \<in> (\<lambda>a. a / M) ` the_fin ` set xs"
      by (intro imageI)
    with Mpos show "1 \<in> (\<lambda>a. a / M) ` the_fin ` set xs" by simp
  qed
  then have one: "Max (the_fin ` set ?ys) = 1"
    by (simp only: img)
  from ne have "?ys \<noteq> []" by simp
  from fl_max_list_fin [OF this fin, of e] have "fl_max_list e ?ys = Inr (Fin 1)"
    by (simp only: one)
  with unit show ?thesis by simp
qed

lemma concat_mmap: "concat (mmap f m) = map f (concat m)"
  by (simp add: mmap_def map_concat)

lemma div_max_m_pos:
  assumes "concat m \<noteq> []" and "\<forall>v \<in> set (concat m). pos_fin v"
  shows "\<exists>r. div_max_m e m = Inr r \<and> scaled_by_max e m r \<and> unit_range e r"
proof -
  let ?M = "Max (the_fin ` set (concat m))"
  from assms have mx: "fl_max_list e (concat m) = Inr (Fin ?M)"
    by (intro fl_max_list_fin) (auto simp: pos_fin_is_fin)
  from scaled_list_unit [OF assms refl, of e]
  have "unit_range e (mmap (\<lambda>v. fl_div v (Fin ?M)) m)"
    unfolding unit_range_def concat_mmap by simp
  with mx show ?thesis
    by (simp add: div_max_m_def scaled_by_max_def)
qed

lemma sequence_map_Inr:
  assumes "\<forall>m \<in> set ms. \<exists>r. f m = Inr r \<and> P m r"
  shows "\<exists>rs. sequence (map f ms) = Inr rs \<and> length rs = length ms
              \<and> (\<forall>b \<in> {0..<length ms}. P (ms ! b) (rs ! b))"
  using assms
proof (induction ms)
  case Nil
  show ?case by simp
next
  case (Cons m ms)
  then obtain rs where rs: "sequence (map f ms) = Inr rs" "length rs = length ms"
      "\<forall>b \<in> {0..<length ms}. P (ms ! b) (rs ! b)"
    by auto
  from Cons.prems obtain r where r: "f m = Inr r" "P m r"
    by auto
  have "\<forall>b \<in> {0..<length (m # ms)}. P ((m # ms) ! b) ((r # rs) ! b)"
  proof
    fix b assume "b \<in> {0..<length (m # ms)}"
    with r(2) rs(3) show "P ((m # ms) ! b) ((r # rs) ! b)"
      by (cases b) simp_all
  qed
  with r rs show ?case
    by simp
qed

lemma div_max_pos:
  assumes "nonempty t" and "\<forall>v \<in> set (entries t). pos_fin v"
  shows "\<exists>s. div_max t = Inr s \<and> range_normalized t s"
proof (cases t)
  case (Unbatched m)
  with assms div_max_m_pos [of m RuntimeError] show ?thesis
    by (auto simp: nonempty_def range_normalized_def)
next
  case (Batched ms)
  with assms have ne: "ms \<noteq> []"
    by (simp add: nonempty_def)
  from Batched assms have "\<forall>m \<in> set ms. \<exists>r. div_max_m IndexError m = Inr r
      \<and> scaled_by_max IndexError m r \<and> unit_range IndexError r"
    by (intro ballI div_max_m_pos) (auto simp: nonempty_def)
  from sequence_map_Inr [OF this] Batched ne show ?thesis
    by (auto simp: range_normalized_def)
qed

lemma pos_fin_recover:
  "exp_range v \<Longrightarrow> pos_fin ((if sg then fl_sigmoid else fl_exp) v)"
  by (cases v) (simp_all add: add_pos_pos)

lemma entries_tmap: "entries (tmap f t) = map f (entries t)"
  by (cases t) (simp_all add: mmap_def map_concat comp_def)

lemma concat_mmap_Nil: "(concat (mmap f m) = []) = (concat m = [])"
  unfolding concat_mmap by (rule map_is_Nil_conv)

lemma nonempty_tmap: "nonempty (tmap f t) = nonempty t"
  by (cases t) (simp_all add: nonempty_def concat_mmap_Nil del: concat_eq_Nil_conv)

text \<open>
  The range normalisation where it works. With \<open>max_scale\<close> true, whenever the solver
  returns a log plan that is not empty and whose entries are numbers between the two
  bounds of \<^verbatim>\<open>exp\<close>, lines 75 to 84 run to their end, and the tensor of line 84 is the
  recovered plan with every entry divided by a maximum: the one maximum of the whole
  matrix for rank 2, the maximum of each batch element by itself for rank 3. Every entry
  of the result is in \<open>[0, 1]\<close>, and the maximum of the matrix, or of each batch element,
  is exactly 1.
\<close>

lemma range_normalization_in_exp_range:
  assumes "max_scale self" and "C < length st"
    and "log_sinkhorn (st ! C) (ot_reg self) (sinkhorn_iterations self) = Inr plan"
    and "in_exp_range plan" and "nonempty plan"
  shows "\<exists>x_bpa st1 out st2.
           self_ot self log_sinkhorn C st = (Inr x_bpa, st1)
           \<and> scale_range self x_bpa st1 = (Inr out, st2)
           \<and> x_bpa < length st2 \<and> out < length st2
           \<and> st2 ! x_bpa = tmap (if sigmoid self then fl_sigmoid else fl_exp) plan
           \<and> range_normalized (st2 ! x_bpa) (st2 ! out)"
proof -
  let ?rec = "tmap (if sigmoid self then fl_sigmoid else fl_exp) plan"
  have run1: "self_ot self log_sinkhorn C st = (Inr (Suc (length st)), st @ [plan, ?rec])"
    using assms(2,3) by (simp add: self_ot_def comp_defs nth_append)
  from assms(4) have "\<forall>v \<in> set (entries ?rec). pos_fin v"
    by (auto simp: entries_tmap in_exp_range_def pos_fin_recover)
  moreover from assms(5) have "nonempty ?rec"
    by (simp add: nonempty_tmap)
  ultimately obtain s where s: "div_max ?rec = Inr s" "range_normalized ?rec s"
    using div_max_pos by blast
  from assms(1) s(1)
  have run2: "scale_range self (Suc (length st)) (st @ [plan, ?rec])
              = (Inr (Suc (Suc (length st))), st @ [plan, ?rec, s])"
    by (simp add: scale_range_def comp_defs nth_append)
  from run1 run2 s(2) show ?thesis
    by (simp add: nth_append)
qed

text \<open>
  C4 (the code at the failing input): lines 82 to 84 on the tensors \<^verbatim>\<open>x_bpa\<close> that make
  the maximum \<open>NaN\<close> or 0. The first is the recovered plan of two identical feature
  vectors under the euclidean metric, where the cost is \<open>NaN\<close> off the diagonal and every
  floating-point operation on it returns \<open>NaN\<close>; the second is a recovered plan of which
  \<^verbatim>\<open>exp\<close> has taken every entry to 0. In both, the division by the maximum returns
  \<open>NaN\<close> in every entry, a batch element by itself as well as a matrix: no entry is in
  \<open>[0, 1]\<close> and the maximum is not 1.
\<close>

theorem C4_division_by_nan_or_zero_maximum:
  "scale_range default_bpa 0 [Unbatched [[NaN, NaN], [NaN, NaN]]]
     = (Inr 1, [Unbatched [[NaN, NaN], [NaN, NaN]], Unbatched [[NaN, NaN], [NaN, NaN]]])
   \<and> scale_range default_bpa 0 [Batched [[[Fin 0, Fin 0], [Fin 0, Fin 0]], [[Fin 1, Fin 2], [Fin 2, Fin 1]]]]
     = (Inr 1, [Batched [[[Fin 0, Fin 0], [Fin 0, Fin 0]], [[Fin 1, Fin 2], [Fin 2, Fin 1]]],
                Batched [[[NaN, NaN], [NaN, NaN]], [[Fin (1 / 2), Fin 1], [Fin 1, Fin (1 / 2)]]]])
   \<and> \<not> in_unit NaN
   \<and> fl_max_list RuntimeError (concat [[NaN, NaN], [NaN, NaN]]) \<noteq> Inr (Fin 1)
   \<and> fl_exp (Fin (- 1000)) = Fin 0"
  by (simp add: run_defs in_unit_def)


section \<open>The diagonal of the output\<close>

lemma map_length_mmap: "map length (mmap f m) = map length m"
  by (simp add: mmap_def comp_def)

lemma dims_tmap: "dims (tmap f t) = dims t"
  by (cases t) (simp_all add: map_length_mmap comp_def)

lemma map_length_cdist_m: "map length (cdist_m X) = replicate (length X) (length X)"
  by (simp add: cdist_m_def comp_def map_replicate_const)

lemma map_length_gram_m: "map length (gram_m X) = replicate (length X) (length X)"
  by (simp add: gram_m_def comp_def map_replicate_const)

lemma dims_cdist: "dims (cdist t) = square_dims t"
  by (cases t) (simp_all add: map_length_cdist_m comp_def)

lemma dims_gram: "dims (gram t) = square_dims t"
  by (cases t) (simp_all add: map_length_gram_m comp_def)

lemma square_dims_F_normalize: "square_dims (F_normalize t) = square_dims t"
  by (cases t) (simp_all add: F_normalize_def comp_def)

lemma map_length_fill_diagonal: "map length (fill_diagonal m v) = map length m"
  by (rule nth_equalityI) (simp_all add: length_fill_diagonal nth_fill_diagonal)

lemma diag_set_m_fill_diagonal: "diag_set_m v m (fill_diagonal m v)"
  by (simp add: diag_set_m_def length_fill_diagonal nth_fill_diagonal nth_list_update)

lemma compute_cost_matrix_dims:
  assumes "compute_cost_matrix self x st = (Inr C, st1)"
  shows "x < length st \<and> C < length st1 \<and> dims (st1 ! C) = square_dims (st ! x)"
proof -
  from compute_cost_matrix_metric [OF assms]
  consider "distance_metric self = ''euclidean''" | "distance_metric self = ''cosine''"
    by blast
  then show ?thesis
  proof cases
    case 1
    from compute_cost_matrix_euclidean [OF 1 assms] show ?thesis
      by (auto simp: nth_append dims_tmap dims_cdist)
  next
    case 2
    from compute_cost_matrix_cosine [OF 2 assms] show ?thesis
      by (auto simp: nth_append dims_tmap dims_gram square_dims_F_normalize)
  qed
qed

lemma mask_diagonal_dims:
  assumes "mask_diagonal self M v st = (Inr r, st')" and "M < length st"
  shows "r = M \<and> length st' = length st \<and> dims (st' ! M) = dims (st ! M)"
proof (cases "mask_diag self")
  case True
  from mask_diagonal_Inr [OF True assms(1)] show ?thesis
    by (cases "st ! M") (auto simp: map_length_fill_diagonal comp_def)
next
  case False
  with assms(1) show ?thesis
    by (simp add: mask_diagonal_def ret_def)
qed

lemma self_ot_Inr:
  assumes "self_ot self log_sinkhorn C st = (Inr x_bpa, st')"
  shows "C < length st
         \<and> (\<exists>plan. log_sinkhorn (st ! C) (ot_reg self) (sinkhorn_iterations self) = Inr plan
               \<and> st' = st @ [plan, tmap (if sigmoid self then fl_sigmoid else fl_exp) plan])
         \<and> x_bpa = Suc (length st)"
  using assms
  by (auto simp: self_ot_def comp_defs nth_append split: if_splits sum.splits)

lemma sequence_div_max_m_dims:
  "sequence (map (div_max_m e) ms) = Inr rs \<Longrightarrow> map (map length) rs = map (map length) ms"
proof (induction ms arbitrary: rs)
  case Nil
  then show ?case by simp
next
  case (Cons m ms)
  then show ?case
    by (auto simp: div_max_m_def map_length_mmap split: sum.splits)
qed

lemma dims_div_max: "div_max t = Inr s \<Longrightarrow> dims s = dims t"
  by (cases t)
     (auto simp: div_max_m_def map_length_mmap sequence_div_max_m_dims split: sum.splits if_splits)

lemma scale_range_dims:
  assumes "scale_range self x_bpa st = (Inr out, st')" and "x_bpa < length st"
  shows "out < length st' \<and> dims (st' ! out) = dims (st ! x_bpa)"
  using assms
  by (auto simp: scale_range_def comp_defs nth_append dims_div_max split: if_splits sum.splits)

text \<open>
  C2: with \<open>mask_diag\<close> true, the tensor that \<^verbatim>\<open>forward\<close> returns is the tensor
  \<^verbatim>\<open>x_bpa\<close> of lines 71 to 84 with exactly 1 in every diagonal entry: it has the shape of
  \<^verbatim>\<open>x_bpa\<close>, in a matrix and in every element of a batch its entry \<open>(i, i)\<close> is 1 for every
  \<open>i\<close>, and every other entry is the one of \<^verbatim>\<open>x_bpa\<close>, whatever the flags \<open>sigmoid\<close> and
  \<open>max_scale\<close> are and whatever the solver returned. Where the solver returns log plans
  of the shape of the cost matrix, the output has \<open>N\<close> rows of length \<open>N\<close> for every
  feature matrix of \<open>N\<close> rows in the input, so that these are \<open>N\<close> diagonal entries for
  every batch element.
\<close>

theorem C2_forward_diagonal_is_one:
  assumes "mask_diag self" and "forward self log_sinkhorn x st = (Inr out, st')"
  shows "x < length st \<and> out < length st'
         \<and> tensor_diag_is (Fin 1) (st' ! out)
         \<and> (\<exists>st1. before_fixup self log_sinkhorn x st = (Inr out, st1)
                \<and> out < length st1 \<and> diag_set (Fin 1) (st1 ! out) (st' ! out))
         \<and> (shape_preserving self log_sinkhorn \<longrightarrow> dims (st' ! out) = square_dims (st ! x))"
proof -
  from assms(2) obtain C s1 xb s2 y s3 where
    mc: "masked_cost self x st = (Inr C, s1)"
    and so: "self_ot self log_sinkhorn C s1 = (Inr xb, s2)"
    and sr: "scale_range self xb s2 = (Inr y, s3)"
    and md: "mask_diagonal self y (Fin 1) s3 = (Inr out, st')"
    unfolding forward_def by (elim bnd_Inr)
  from mc so sr have pre: "before_fixup self log_sinkhorn x st = (Inr y, s3)"
    by (simp add: before_fixup_def bnd_def)
  from mask_diagonal_Inr [OF assms(1) md]
  have out: "out = y" "y < length s3" "length st' = length s3"
    and cell: "case s3 ! y of
                 Unbatched m \<Rightarrow> st' ! y = Unbatched (fill_diagonal m (Fin 1))
               | Batched ms \<Rightarrow> shape2 ms = shape1 ms
                   \<and> st' ! y = Batched (map (\<lambda>m. fill_diagonal m (Fin 1)) ms)"
    by simp_all
  from cell have ds: "diag_set (Fin 1) (s3 ! y) (st' ! y)"
    by (cases "s3 ! y") (auto simp: diag_set_def diag_set_m_fill_diagonal)
  from cell have di: "tensor_diag_is (Fin 1) (st' ! y)"
    by (cases "s3 ! y") (auto simp: tensor_diag_is_def diag_is_fill_diagonal)
  from mc obtain C0 s0 where cc: "compute_cost_matrix self x st = (Inr C0, s0)"
    and m0: "mask_diagonal self C0 (Fin (diagonal_val self)) s0 = (Inr C, s1)"
    unfolding masked_cost_def by (elim bnd_Inr)
  from compute_cost_matrix_dims [OF cc]
  have x: "x < length st" and c0: "C0 < length s0" "dims (s0 ! C0) = square_dims (st ! x)"
    by simp_all
  from mask_diagonal_dims [OF m0 c0(1)] c0
  have c: "C = C0" "C < length s1" "dims (s1 ! C) = square_dims (st ! x)"
    by simp_all
  have shape: "dims (st' ! y) = square_dims (st ! x)" if sp: "shape_preserving self log_sinkhorn"
  proof -
    from self_ot_Inr [OF so] obtain plan where
      plan: "log_sinkhorn (s1 ! C) (ot_reg self) (sinkhorn_iterations self) = Inr plan"
      and s2: "s2 = s1 @ [plan, tmap (if sigmoid self then fl_sigmoid else fl_exp) plan]"
      and xb: "xb = Suc (length s1)"
      by blast
    from sp plan have "dims plan = dims (s1 ! C)"
      unfolding shape_preserving_def by blast
    with c(3) s2 xb have "xb < length s2" "dims (s2 ! xb) = square_dims (st ! x)"
      by (simp_all add: nth_append dims_tmap)
    with scale_range_dims [OF sr] have "dims (s3 ! y) = square_dims (st ! x)"
      by simp
    with mask_diagonal_dims [OF md out(2)] show ?thesis
      by simp
  qed
  from x out ds di pre shape show ?thesis
    by auto
qed

lemma shape_preserving_zero_potential_plan: "shape_preserving self zero_potential_plan"
  by (auto simp: shape_preserving_def zero_potential_plan_def dims_tmap)

theorem C2_forward_diagonal_is_one_witness:
  "mask_diag default_bpa
   \<and> forward default_bpa zero_potential_plan 0
        [Batched [[[Fin 1, Fin 0], [Fin 0, Fin 1]], [[Fin 0, Fin 2], [Fin 3, Fin 0]]]]
       = (Inr 5, snd (forward default_bpa zero_potential_plan 0
            [Batched [[[Fin 1, Fin 0], [Fin 0, Fin 1]],
                      [[Fin 0, Fin 2], [Fin 3, Fin 0]]]]))
   \<and> shape_preserving default_bpa zero_potential_plan
   \<and> tensor_diag_is (Fin 1)
        (snd (forward default_bpa zero_potential_plan 0
            [Batched [[[Fin 1, Fin 0], [Fin 0, Fin 1]],
                      [[Fin 0, Fin 2], [Fin 3, Fin 0]]]]) ! 5)
   \<and> dims (snd (forward default_bpa zero_potential_plan 0
            [Batched [[[Fin 1, Fin 0], [Fin 0, Fin 1]],
                      [[Fin 0, Fin 2], [Fin 3, Fin 0]]]]) ! 5)
       = Inr [[2, 2], [2, 2]]"
proof -
  let ?st = "[Batched [[[Fin 1, Fin 0], [Fin 0, Fin 1]],
                       [[Fin 0, Fin 2], [Fin 3, Fin 0]]]]"
  let ?run = "forward default_bpa zero_potential_plan 0 ?st"
  have run: "fst ?run = Inr 5"
    by (simp add: run_defs)
  then have eq: "?run = (Inr 5, snd ?run)"
    by (metis prod.collapse)
  have md: "mask_diag default_bpa"
    by (simp add: default_bpa_def)
  note sp = shape_preserving_zero_potential_plan [of default_bpa]
  from C2_forward_diagonal_is_one [OF md eq] sp
  have "tensor_diag_is (Fin 1) (snd ?run ! 5)"
    and "dims (snd ?run ! 5) = square_dims (?st ! 0)"
    by simp_all
  with md eq sp show ?thesis
    by (simp add: numeral_eq_Suc)
qed


section \<open>The range of the cost\<close>

lemma nonneg_fin_is_fin: "nonneg_fin v \<Longrightarrow> is_fin v"
  by (cases v) simp_all

lemma nonneg_fin_the_fin: "nonneg_fin v \<Longrightarrow> 0 \<le> the_fin v"
  by (cases v) simp_all

lemma nonneg_fin_add: "nonneg_fin u \<Longrightarrow> nonneg_fin v \<Longrightarrow> nonneg_fin (fl_add u v)"
  by (cases u; cases v) simp_all

lemma nonneg_fin_sum: "\<forall>v \<in> set xs. nonneg_fin v \<Longrightarrow> nonneg_fin (fl_sum xs)"
  by (induction xs) (simp_all add: nonneg_fin_add)

lemma nonneg_fin_sq_diff:
  "is_fin u \<Longrightarrow> is_fin v \<Longrightarrow> nonneg_fin (fl_mul (fl_sub u v) (fl_sub u v))"
  by (cases u; cases v) (simp_all add: fl_sub_def)

lemma nonneg_fin_sqrt: "nonneg_fin v \<Longrightarrow> nonneg_fin (fl_sqrt v)"
  by (cases v) simp_all

lemma nonneg_fin_dist2:
  assumes "\<forall>u \<in> set a. is_fin u" and "\<forall>v \<in> set b. is_fin v"
  shows "nonneg_fin (dist2 a b)"
  unfolding dist2_def
proof (intro nonneg_fin_sqrt nonneg_fin_sum ballI)
  fix w assume "w \<in> set (map2 (\<lambda>u v. fl_mul (fl_sub u v) (fl_sub u v)) a b)"
  then obtain u v where "(u, v) \<in> set (zip a b)"
      and w: "w = fl_mul (fl_sub u v) (fl_sub u v)"
    by auto
  then have "u \<in> set a" and "v \<in> set b"
    by (auto dest: set_zip_leftD set_zip_rightD)
  with assms show "nonneg_fin w"
    by (simp add: w nonneg_fin_sq_diff)
qed

lemma nonneg_fin_cdist_m:
  assumes "\<forall>v \<in> set (concat X). is_fin v"
  shows "\<forall>v \<in> set (concat (cdist_m X)). nonneg_fin v"
  using assms by (auto simp: cdist_m_def intro!: nonneg_fin_dist2)

lemma nonneg_fin_cdist:
  assumes "all_fin t"
  shows "\<forall>v \<in> set (entries (cdist t)). nonneg_fin v"
proof (cases t)
  case (Unbatched X)
  with assms nonneg_fin_cdist_m [of X] show ?thesis
    by (simp add: all_fin_def)
next
  case (Batched Xs)
  have "\<forall>v \<in> set (concat (cdist_m X)). nonneg_fin v" if "X \<in> set Xs" for X
    using that assms Batched by (intro nonneg_fin_cdist_m) (auto simp: all_fin_def)
  with Batched show ?thesis
    by auto
qed

lemma fl_max_list_nonneg:
  assumes "fl_max_list e xs = Inr z" and "\<forall>v \<in> set xs. nonneg_fin v"
  shows "z = Fin (Max (the_fin ` set xs)) \<and> 0 \<le> Max (the_fin ` set xs)
         \<and> (\<forall>v \<in> set xs. the_fin v \<le> Max (the_fin ` set xs))"
proof -
  from assms(1) have ne: "xs \<noteq> []"
    by (cases xs) simp_all
  from fl_max_list_fin [OF ne, of e] assms have z: "z = Fin (Max (the_fin ` set xs))"
    by (auto simp: nonneg_fin_is_fin)
  have "Max (the_fin ` set xs) \<in> the_fin ` set xs"
    using ne by (intro Max_in) simp_all
  with assms(2) have "0 \<le> Max (the_fin ` set xs)"
    by (auto simp: nonneg_fin_the_fin)
  with z show ?thesis
    by simp
qed

lemma fl_div_nonneg_unit:
  assumes "nonneg_fin v" and "the_fin v \<le> M" and "0 < M"
  shows "in_unit (fl_div v (Fin M))"
  using assms by (cases v) (simp_all add: in_unit_def)

lemma fl_div_nonneg_zero:
  assumes "nonneg_fin v" and "the_fin v \<le> 0"
  shows "fl_div v (Fin 0) = NaN"
  using assms by (cases v) simp_all

text \<open>
  The euclidean cost in general, for features that are numbers: the method divides the
  pairwise distances of the whole tensor by their one maximum. Where that maximum is not
  0, every entry of the cost matrix is in \<open>[0, 1]\<close>; where it is 0, which is when all
  feature vectors of the tensor coincide, every entry is \<open>NaN\<close>.
\<close>

lemma euclidean_cost_range:
  assumes "distance_metric self = ''euclidean''"
    and "compute_cost_matrix self x st = (Inr C, st')"
    and "all_fin (st ! x)"
  shows "\<exists>M. fl_max_list RuntimeError (entries (cdist (st ! x))) = Inr (Fin M) \<and> 0 \<le> M
           \<and> st' ! C = tmap (\<lambda>v. fl_div v (Fin M)) (cdist (st ! x))
           \<and> (0 < M \<longrightarrow> (\<forall>v \<in> set (entries (st' ! C)). in_unit v))
           \<and> (M = 0 \<longrightarrow> (\<forall>v \<in> set (entries (st' ! C)). v = NaN))"
proof -
  let ?D = "cdist (st ! x)"
  from compute_cost_matrix_euclidean [OF assms(1,2)] obtain mx where
    mx: "fl_max_list RuntimeError (entries ?D) = Inr mx"
    and st': "st' = st @ [?D, tmap (\<lambda>v. fl_div v mx) ?D]" and C: "C = Suc (length st)"
    by blast
  have nn: "\<forall>v \<in> set (entries ?D). nonneg_fin v"
    by (rule nonneg_fin_cdist [OF assms(3)])
  let ?M = "Max (the_fin ` set (entries ?D))"
  from fl_max_list_nonneg [OF mx nn] have M: "mx = Fin ?M" "0 \<le> ?M"
    and le: "\<forall>v \<in> set (entries ?D). the_fin v \<le> ?M"
    by simp_all
  have cell: "st' ! C = tmap (\<lambda>v. fl_div v (Fin ?M)) ?D"
    by (simp add: st' C M nth_append)
  have "\<forall>v \<in> set (entries (st' ! C)). in_unit v" if "0 < ?M"
    using nn le that by (auto simp: cell entries_tmap intro!: fl_div_nonneg_unit)
  moreover have "\<forall>v \<in> set (entries (st' ! C)). v = NaN" if "?M = 0"
    using nn le that by (auto simp: cell entries_tmap intro!: fl_div_nonneg_zero)
  ultimately show ?thesis
    using mx M cell by auto
qed

lemma fl_sum_fin:
  "\<forall>v \<in> set xs. is_fin v \<Longrightarrow> fl_sum xs = Fin (sum_list (map the_fin xs))"
proof (induction xs)
  case Nil
  show ?case by simp
next
  case (Cons v xs)
  then show ?case by (cases v) simp_all
qed

lemma sum_list_squares_nonneg: "0 \<le> sum_list (map (\<lambda>u. the_fin u * the_fin u) a)"
  by (induction a) simp_all

lemma sum_list_divide_const:
  "sum_list (map (\<lambda>x. f x / c) xs) = sum_list (map f xs) / (c::real)"
  by (induction xs) (simp_all add: add_divide_distrib)

lemma fl_mul_self_fin: "is_fin u \<Longrightarrow> fl_mul u u = Fin (the_fin u * the_fin u)"
  by (cases u) simp_all

lemma fl_div_fin: "is_fin u \<Longrightarrow> 0 < d \<Longrightarrow> fl_div u (Fin d) = Fin (the_fin u / d)"
  by (cases u) simp_all

lemma normalize_row_fin:
  assumes "\<forall>u \<in> set a. is_fin u"
  shows "\<exists>d. 0 < d \<and> sum_list (map (\<lambda>u. the_fin u * the_fin u) a) \<le> d * d
           \<and> normalize_row a = map (\<lambda>u. Fin (the_fin u / d)) a"
proof -
  let ?s = "sum_list (map (\<lambda>u. the_fin u * the_fin u) a)"
  let ?d = "max (sqrt ?s) eps"
  have s0: "0 \<le> ?s"
    by (rule sum_list_squares_nonneg)
  have sq: "fl_mul u u = Fin (the_fin u * the_fin u)" if "u \<in> set a" for u
    using that assms by (simp add: fl_mul_self_fin)
  have "fl_sum (map (\<lambda>u. fl_mul u u) a) = Fin (sum_list (map the_fin (map (\<lambda>u. fl_mul u u) a)))"
    by (rule fl_sum_fin) (auto simp: sq)
  also have "map the_fin (map (\<lambda>u. fl_mul u u) a) = map (\<lambda>u. the_fin u * the_fin u) a"
    by (simp add: sq)
  finally have sum: "fl_sum (map (\<lambda>u. fl_mul u u) a) = Fin ?s" .
  have "0 < eps"
    by (simp add: eps_def)
  then have dpos: "0 < ?d"
    by (simp only: less_max_iff_disj simp_thms)
  have "sqrt ?s * sqrt ?s \<le> ?d * ?d"
    using s0 dpos by (intro mult_mono) simp_all
  with s0 have bound: "?s \<le> ?d * ?d"
    by simp
  have div: "fl_div u (Fin ?d) = Fin (the_fin u / ?d)" if "u \<in> set a" for u
    using that assms dpos by (simp add: fl_div_fin)
  have "normalize_row a = map (\<lambda>u. fl_div u (Fin ?d)) a"
    using s0 by (simp add: normalize_row_def sum Let_def)
  also have "\<dots> = map (\<lambda>u. Fin (the_fin u / ?d)) a"
    by (simp add: div)
  finally show ?thesis
    using dpos bound by blast
qed

lemma unit_row_normalize_row:
  assumes "\<forall>u \<in> set a. is_fin u"
  shows "unit_row (normalize_row a)"
proof -
  let ?s = "sum_list (map (\<lambda>u. the_fin u * the_fin u) a)"
  from normalize_row_fin [OF assms] obtain d where d: "0 < d" "?s \<le> d * d"
    and n: "normalize_row a = map (\<lambda>u. Fin (the_fin u / d)) a"
    by blast
  have "sum_list (map (\<lambda>v. the_fin v * the_fin v) (normalize_row a))
        = sum_list (map (\<lambda>u. (the_fin u * the_fin u) / (d * d)) a)"
    by (simp add: n comp_def)
  also have "\<dots> = ?s / (d * d)"
    by (rule sum_list_divide_const)
  also from d have "\<dots> \<le> 1"
    by simp
  finally show ?thesis
    by (simp add: unit_row_def n)
qed

lemma two_abs_mult_le: "2 * \<bar>x * y\<bar> \<le> x * x + y * (y::real)"
proof -
  have "0 \<le> (\<bar>x\<bar> - \<bar>y\<bar>) * (\<bar>x\<bar> - \<bar>y\<bar>)"
    by simp
  also have "\<dots> = x * x + y * y - 2 * \<bar>x * y\<bar>"
    by (simp add: algebra_simps abs_mult)
  finally show ?thesis
    by simp
qed

lemma two_abs_sum_products_le:
  "2 * \<bar>sum_list (map2 (*) p q)\<bar>
     \<le> sum_list (map (\<lambda>x. x * x) p) + sum_list (map (\<lambda>y. y * (y::real)) q)"
proof (induction p arbitrary: q)
  case Nil
  have "0 \<le> sum_list (map (\<lambda>y. y * y) q)"
    by (induction q) simp_all
  then show ?case by simp
next
  case (Cons x p)
  show ?case
  proof (cases q)
    case Nil
    have "0 \<le> sum_list (map (\<lambda>y. y * y) p)"
      by (induction p) simp_all
    with Nil show ?thesis by simp
  next
    case (Cons y q')
    have "2 * \<bar>x * y + sum_list (map2 (*) p q')\<bar>
          \<le> 2 * \<bar>x * y\<bar> + 2 * \<bar>sum_list (map2 (*) p q')\<bar>"
      using abs_triangle_ineq [of "x * y" "sum_list (map2 (*) p q')"] by simp
    also have "\<dots> \<le> (x * x + y * y)
                + (sum_list (map (\<lambda>x. x * x) p) + sum_list (map (\<lambda>y. y * y) q'))"
      by (intro add_mono two_abs_mult_le Cons.IH)
    finally show ?thesis
      using Cons by simp
  qed
qed

lemma map2_fl_mul_fin:
  assumes "\<forall>u \<in> set a. is_fin u" and "\<forall>v \<in> set b. is_fin v"
  shows "map2 fl_mul a b = map Fin (map2 (*) (map the_fin a) (map the_fin b))"
  using assms
proof (induction a arbitrary: b)
  case Nil
  show ?case by simp
next
  case (Cons u a)
  show ?case
  proof (cases b)
    case Nil
    then show ?thesis by simp
  next
    case (Cons v b')
    with Cons.prems Cons.IH [of b'] show ?thesis
      by (cases u; cases v) simp_all
  qed
qed

lemma dot_unit_rows:
  assumes "unit_row a" and "unit_row b"
  shows "\<exists>t. dot a b = Fin t \<and> \<bar>t\<bar> \<le> 1"
proof -
  let ?p = "map the_fin a" and ?q = "map the_fin b"
  from assms have fin: "\<forall>u \<in> set a. is_fin u" "\<forall>v \<in> set b. is_fin v"
    by (simp_all add: unit_row_def)
  have "dot a b = fl_sum (map Fin (map2 (*) ?p ?q))"
    unfolding dot_def by (simp only: map2_fl_mul_fin [OF fin])
  also have "\<dots> = Fin (sum_list (map the_fin (map Fin (map2 (*) ?p ?q))))"
    by (rule fl_sum_fin) auto
  also have "map the_fin (map Fin (map2 (*) ?p ?q)) = map2 (*) ?p ?q"
    by (simp add: comp_def)
  finally have d: "dot a b = Fin (sum_list (map2 (*) ?p ?q))" .
  have "2 * \<bar>sum_list (map2 (*) ?p ?q)\<bar>
        \<le> sum_list (map (\<lambda>x. x * x) ?p) + sum_list (map (\<lambda>y. y * y) ?q)"
    by (rule two_abs_sum_products_le)
  also from assms have "\<dots> \<le> 1 + 1"
    by (intro add_mono) (simp_all add: unit_row_def comp_def)
  finally have "\<bar>sum_list (map2 (*) ?p ?q)\<bar> \<le> 1"
    by simp
  with d show ?thesis
    by blast
qed

lemma cosine_entry_range:
  assumes "unit_row a" and "unit_row b"
  shows "fl_le (Fin 0) (fl_sub (Fin 1) (dot a b)) \<and> fl_le (fl_sub (Fin 1) (dot a b)) (Fin 2)"
proof -
  from dot_unit_rows [OF assms] obtain t where "dot a b = Fin t" "\<bar>t\<bar> \<le> 1"
    by blast
  then show ?thesis
    by (auto simp: fl_sub_def abs_le_iff)
qed

lemma cosine_matrix_range:
  assumes "\<forall>v \<in> set (concat X). is_fin v"
  shows "\<forall>v \<in> set (concat (mmap (\<lambda>v. fl_sub (Fin 1) v) (gram_m (map normalize_row X)))).
           fl_le (Fin 0) v \<and> fl_le v (Fin 2)"
proof -
  have "unit_row (normalize_row a)" if "a \<in> set X" for a
    using that assms by (intro unit_row_normalize_row) auto
  then show ?thesis
    by (auto simp: mmap_def gram_m_def intro!: cosine_entry_range)
qed

text \<open>
  The cosine cost in general, for features that are numbers: every entry of the cost
  matrix is in \<open>[0, 2]\<close>.
\<close>

lemma cosine_cost_range:
  assumes "distance_metric self = ''cosine''"
    and "compute_cost_matrix self x st = (Inr C, st')"
    and "all_fin (st ! x)"
  shows "\<forall>v \<in> set (entries (st' ! C)). fl_le (Fin 0) v \<and> fl_le v (Fin 2)"
proof -
  from compute_cost_matrix_cosine [OF assms(1,2)]
  have cell: "st' ! C = tmap (\<lambda>v. fl_sub (Fin 1) v) (gram (F_normalize (st ! x)))"
    by (simp add: nth_append)
  show ?thesis
  proof (cases "st ! x")
    case (Unbatched X)
    with assms(3) cosine_matrix_range [of X] show ?thesis
      by (simp add: cell F_normalize_def all_fin_def)
  next
    case (Batched Xs)
    have "\<forall>v \<in> set (concat (mmap (\<lambda>v. fl_sub (Fin 1) v) (gram_m (map normalize_row X)))).
            fl_le (Fin 0) v \<and> fl_le v (Fin 2)" if "X \<in> set Xs" for X
      using that assms(3) Batched by (intro cosine_matrix_range) (auto simp: all_fin_def)
    with Batched show ?thesis
      by (auto simp: cell F_normalize_def)
  qed
qed

lemma fl_lt_1000: "fl_le v (Fin c) \<Longrightarrow> c < 1000 \<Longrightarrow> fl_lt v (Fin 1000)"
  by (cases v) (simp_all add: fl_lt_def fl_eq_def)

lemma off_diag_below_fill_diagonal:
  assumes "\<forall>v \<in> set (concat m). fl_lt v c"
  shows "off_diag_below c (fill_diagonal m d)"
  unfolding off_diag_below_def
proof (intro ballI impI)
  fix i j
  assume i: "i \<in> {0..<length (fill_diagonal m d)}"
    and j: "j \<in> {0..<length (fill_diagonal m d ! i)}" and ne: "i \<noteq> j"
  from i have i': "i < length m"
    by (simp add: length_fill_diagonal)
  with j have j': "j < length (m ! i)"
    by (simp add: nth_fill_diagonal)
  from i' ne have "fill_diagonal m d ! i ! j = m ! i ! j"
    by (simp add: nth_fill_diagonal)
  moreover from i' j' have "m ! i ! j \<in> set (concat m)"
    by (auto intro!: bexI [of _ "m ! i"])
  ultimately show "fl_lt (fill_diagonal m d ! i ! j) c"
    using assms by auto
qed

text \<open>
  The masked cost in general, for features that are numbers: with \<open>mask_diag\<close> true and
  the diagonal value 1000 of the constructor, the diagonal of the cost matrix after line
  72 is 1000, and every entry off the diagonal is less than 1000, for the cosine metric
  always and for the euclidean metric where the maximum distance is not 0.
\<close>

lemma masked_cost_diagonal_dominates:
  assumes "mask_diag self" and "diagonal_val self = 1000"
    and "masked_cost self x st = (Inr C, st')"
    and "all_fin (st ! x)"
    and "distance_metric self = ''euclidean'' \<longrightarrow>
           fl_max_list RuntimeError (entries (cdist (st ! x))) \<noteq> Inr (Fin 0)"
  shows "tensor_diag_is (Fin 1000) (st' ! C) \<and> tensor_off_diag_below (Fin 1000) (st' ! C)"
proof -
  from assms(3) obtain C0 st1 where
    c: "compute_cost_matrix self x st = (Inr C0, st1)"
    and m: "mask_diagonal self C0 (Fin 1000) st1 = (Inr C, st')"
    unfolding masked_cost_def assms(2) by (elim bnd_Inr)
  have below: "\<forall>v \<in> set (entries (st1 ! C0)). fl_lt v (Fin 1000)"
  proof (cases "distance_metric self = ''euclidean''")
    case True
    from euclidean_cost_range [OF True c assms(4)] assms(5) True
    have "\<forall>v \<in> set (entries (st1 ! C0)). in_unit v"
      by auto
    then show ?thesis
      by (auto simp: in_unit_def intro: fl_lt_1000 [where c = 1])
  next
    case False
    with compute_cost_matrix_metric [OF c] have "distance_metric self = ''cosine''"
      by simp
    from cosine_cost_range [OF this c assms(4)] show ?thesis
      by (auto intro: fl_lt_1000 [where c = 2])
  qed
  from mask_diagonal_Inr [OF assms(1) m] below show ?thesis
    by (cases "st1 ! C0")
       (auto simp: tensor_diag_is_def tensor_off_diag_below_def diag_is_fill_diagonal
             intro!: off_diag_below_fill_diagonal)
qed

lemma fl_le_not_NaN: "fl_le u v \<Longrightarrow> v \<noteq> NaN"
  by (cases u; cases v) simp_all

lemma float_symmetric_m_if_no_NaN:
  assumes "symmetric_m m" and "\<forall>v \<in> set (concat m). v \<noteq> NaN"
  shows "float_symmetric_m m"
  unfolding float_symmetric_m_def
proof (intro ballI conjI)
  fix i assume i: "i \<in> {0..<length m}"
  with assms(1) show len: "length (m ! i) = length m"
    by (simp add: symmetric_m_def)
  fix j assume j: "j \<in> {0..<length m}"
  with i assms(1) have eq: "m ! i ! j = m ! j ! i"
    by (simp add: symmetric_m_def)
  from i j len have "m ! i ! j \<in> set (concat m)"
    by (auto intro!: bexI [of _ "m ! i"])
  with assms(2) have "m ! i ! j \<noteq> NaN"
    by blast
  with eq show "fl_eq (m ! i ! j) (m ! j ! i)"
    by (simp add: fl_eq_def)
qed

text \<open>
  The symmetry of the cost in general, for features that are numbers: the entries
  \<open>(i, j)\<close> and \<open>(j, i)\<close> of the cost matrix compare equal as floats, for the cosine
  metric always and for the euclidean metric where the maximum distance is not 0.
\<close>

lemma cost_matrix_float_symmetric:
  assumes "compute_cost_matrix self x st = (Inr C, st')"
    and "all_fin (st ! x)"
    and "distance_metric self = ''euclidean'' \<longrightarrow>
           fl_max_list RuntimeError (entries (cdist (st ! x))) \<noteq> Inr (Fin 0)"
  shows "tensor_float_symmetric (st' ! C)"
proof -
  have no_nan: "\<forall>v \<in> set (entries (st' ! C)). v \<noteq> NaN"
  proof (cases "distance_metric self = ''euclidean''")
    case True
    from euclidean_cost_range [OF True assms(1,2)] assms(3) True
    have "\<forall>v \<in> set (entries (st' ! C)). in_unit v"
      by auto
    then show ?thesis
      by (auto simp: in_unit_def dest: fl_le_not_NaN)
  next
    case False
    with compute_cost_matrix_metric [OF assms(1)] have "distance_metric self = ''cosine''"
      by simp
    from cosine_cost_range [OF this assms(1,2)] show ?thesis
      by (auto dest: fl_le_not_NaN)
  qed
  from cost_matrix_symmetric_values [OF assms(1)] have ts: "tensor_symmetric (st' ! C)"
    by simp
  show ?thesis
  proof (cases "st' ! C")
    case (Unbatched m)
    have "float_symmetric_m m"
    proof (rule float_symmetric_m_if_no_NaN)
      from ts Unbatched show "symmetric_m m"
        by (simp add: tensor_symmetric_def)
      from no_nan Unbatched show "\<forall>v \<in> set (concat m). v \<noteq> NaN"
        by simp
    qed
    with Unbatched show ?thesis
      by (simp add: tensor_float_symmetric_def)
  next
    case (Batched ms)
    have "float_symmetric_m m" if m: "m \<in> set ms" for m
    proof (rule float_symmetric_m_if_no_NaN)
      from ts Batched m show "symmetric_m m"
        by (simp add: tensor_symmetric_def)
      from no_nan Batched m show "\<forall>v \<in> set (concat m). v \<noteq> NaN"
        by fastforce
    qed
    with Batched show ?thesis
      by (simp add: tensor_float_symmetric_def)
  qed
qed

end
